theory Spec2Isabelle
  imports Main
begin

text \<open>
  The job pipeline of ArchitectureDeck: the enqueue helper, the two worker handlers, the
  design producer with its fallback, the diagram renderer, and the two router procedures
  that start a refinement and read a job's status. Each function of the source is a
  function here; the database tables, the queues and the Redis status hashes are fields of
  one record that the functions take and return. A handler is cut at its \<open>await\<close>s, so
  that executions can be interleaved, and the environment decides at each awaited call
  whether it fails.
\<close>

section \<open>Values shared by the modules\<close>

text \<open>
  Primary keys are opaque TEXT columns (\<open>migration.sql\<close>); the store hands out a new one at
  every insert. They are modelled as natural numbers, the next unused one kept in the store.
\<close>

type_synonym ident = nat

text \<open>
  A JavaScript \<open>throw\<close> carries any value. The handlers only ask whether it is an
  \<open>Error\<close> (and then read its message): \<open>error instanceof Error ? error.message :
  "Unknown error"\<close> in \<open>src/worker/index.ts\<close>.
\<close>

datatype thrown = Error string | NonError

definition errorMessage :: "thrown \<Rightarrow> string" where
  "errorMessage e = (case e of Error m \<Rightarrow> m | NonError \<Rightarrow> ''Unknown error'')"

datatype JobStatus = PENDING | PROCESSING | COMPLETED | FAILED

datatype JobType = GENERATE_DESIGN | RENDER_DIAGRAM

datatype InputType = PROMPT | REPO_URL

datatype ScaleProfile = PROTOTYPE | DAU_1K | DAU_1M

datatype DetailLevel = OVERVIEW | STANDARD | DETAILED

text \<open>JSON values, as \<open>JSON.parse\<close> yields them and as the JSONB columns hold them.\<close>

datatype json =
    JNull
  | JBool bool
  | JNum int
  | JStr string
  | JArr "json list"
  | JObj "(string \<times> json) list"

section \<open>Strings (\<open>renderer.ts\<close>, \<open>generator.ts\<close>)\<close>

text \<open>
  A \<open>string\<close> is a list of characters; a character stands for a UTF-16 code unit below
  256. In that range \<open>String.prototype.trim\<close> removes TAB, LF, VT, FF, CR, SPACE and
  NBSP, and \<open>toLowerCase\<close> maps A-Z and the Latin-1 capitals (0xC0-0xDE but 0xD7) 32
  places up.
\<close>

definition is_ws :: "char \<Rightarrow> bool" where
  "is_ws c = ((of_char c :: nat) \<in> {9, 10, 11, 12, 13, 32, 160})"

definition trim :: "string \<Rightarrow> string" where
  "trim s = rev (dropWhile is_ws (rev (dropWhile is_ws s)))"

definition lower_char :: "char \<Rightarrow> char" where
  "lower_char c =
     (let n = (of_char c :: nat) in
      if (65 \<le> n \<and> n \<le> 90) \<or> (192 \<le> n \<and> n \<le> 222 \<and> n \<noteq> 215)
      then char_of (n + 32) else c)"

definition toLowerCase :: "string \<Rightarrow> string" where
  "toLowerCase s = map lower_char s"

definition startsWith :: "string \<Rightarrow> string \<Rightarrow> bool" where
  "startsWith s t = (take (length t) s = t)"

text \<open>\<open>s.includes(t)\<close>: \<open>t\<close> occurs in \<open>s\<close> as a contiguous piece.\<close>

fun includes_str :: "string \<Rightarrow> string \<Rightarrow> bool" where
  "includes_str [] t = (t = [])"
| "includes_str (c # s) t = (startsWith (c # s) t \<or> includes_str s t)"

text \<open>\<open>s.split("\n")[0]\<close>: the text before the first line feed.\<close>

definition first_line :: "string \<Rightarrow> string" where
  "first_line s = takeWhile (\<lambda>c. c \<noteq> CHR 0x0A) s"

section \<open>The diagram renderer (\<open>renderMermaidToSvg\<close>)\<close>

record RenderResult =
  mermaidSource :: string
  svgContent :: "string option"
  error :: "string option"

definition validTypes :: "string list" where
  "validTypes =
     [''flowchart'', ''graph'', ''sequenceDiagram'', ''classDiagram'', ''stateDiagram'',
      ''erDiagram'', ''journey'', ''gantt'', ''pie'', ''mindmap'']"

definition hasValidType :: "string \<Rightarrow> bool" where
  "hasValidType source =
     (let firstLine = toLowerCase (first_line (trim source))
      in list_ex (\<lambda>type. includes_str firstLine (toLowerCase type)) validTypes)"

text \<open>
  The body of \<open>renderMermaidToSvg\<close>. Every operation of its \<open>try\<close> block is total on
  a string, so the \<open>catch\<close> clause (which returns a result as well) is never entered.
\<close>

definition renderMermaidToSvg :: "string \<Rightarrow> RenderResult" where
  "renderMermaidToSvg source =
     (if trim source = [] then
        \<lparr>mermaidSource = source, svgContent = None, error = Some ''Empty diagram source''\<rparr>
      else if \<not> hasValidType source then
        \<lparr>mermaidSource = source, svgContent = None,
         error = Some ''Invalid diagram type. Must start with a valid Mermaid diagram declaration.''\<rparr>
      else
        \<lparr>mermaidSource = source, svgContent = None, error = None\<rparr>)"

section \<open>The design producer (\<open>generator.ts\<close>)\<close>

record Constraints =
  mustUse :: "string list option"
  avoid :: "string list option"
  preferredLanguage :: "string option"

record DesignInput =
  inputType :: InputType
  promptText :: "string option"
  repoUrl :: "string option"
  constraints :: Constraints
  scaleProfile :: ScaleProfile
  detailLevel :: "DetailLevel option"
  suggestions :: "string list option"
  existingDesign :: "json option"
  refinementPrompt :: "string option"

record GeneratedDesign =
  design :: json
  mermaidDiagram :: string

text \<open>
  What the provider call and \<open>JSON.parse\<close> hand to \<open>generateDesign\<close>:
  \<^item> \<open>Throws e\<close>: an exception before a response is parsed (the prompt formatting, the
    provider call, reading \<open>choices[0]\<close>, or reading a property of a parsed \<open>null\<close>);
  \<^item> \<open>NoContent\<close>: the content is absent or the empty string;
  \<^item> \<open>Malformed m\<close>: \<open>JSON.parse\<close> throws a SyntaxError with message \<open>m\<close>;
  \<^item> \<open>Parsed d m\<close>: the parsed value, through the two property reads the function makes
    of it, \<open>parsed.design\<close> and \<open>parsed.mermaidDiagram\<close> (\<open>None\<close> for undefined). The
    diagram is a string when present, as the prompt's schema and \<open>GeneratedDesign\<close>
    declare it.
\<close>

datatype response =
    Throws thrown
  | NoContent
  | Malformed string
  | Parsed "json option" "string option"

text \<open>JavaScript truthiness of a JSON value (\<open>!x\<close> is its negation).\<close>

definition truthy :: "json \<Rightarrow> bool" where
  "truthy v = (case v of JNull \<Rightarrow> False | JBool b \<Rightarrow> b | JNum n \<Rightarrow> n \<noteq> 0
                | JStr s \<Rightarrow> s \<noteq> [] | JArr _ \<Rightarrow> True | JObj _ \<Rightarrow> True)"

text \<open>
  \<open>v.k\<close> for a value that is not null: an object's own property, undefined (\<open>None\<close>)
  on everything else (the names read here are no property of a string, number or array).
\<close>

definition property :: "json \<Rightarrow> string \<Rightarrow> json option" where
  "property v k = (case v of JObj kv \<Rightarrow> map_of kv k | _ \<Rightarrow> None)"

text \<open>\<open>x.length\<close> throws a TypeError exactly when \<open>x\<close> is undefined or null.\<close>

definition length_readable :: "json option \<Rightarrow> bool" where
  "length_readable x = (case x of None \<Rightarrow> False | Some JNull \<Rightarrow> False | Some _ \<Rightarrow> True)"

definition TypeError :: thrown where
  "TypeError = Error ''TypeError''"

definition nl :: string where
  "nl = [CHR 0x0A]"

text \<open>\<open>\\w\<close> of a regular expression without the unicode flag.\<close>

definition is_word :: "char \<Rightarrow> bool" where
  "is_word c =
     (let n = (of_char c :: nat) in
      (48 \<le> n \<and> n \<le> 57) \<or> (65 \<le> n \<and> n \<le> 90) \<or> (97 \<le> n \<and> n \<le> 122) \<or> n = 95)"

text \<open>
  The matches of \<open>/(\\w+)\\[/g\<close> in order: every maximal run of word characters that an
  opening bracket follows. \<open>acc\<close> is the run read so far.
\<close>

fun node_ids :: "string \<Rightarrow> string \<Rightarrow> string list" where
  "node_ids acc [] = []"
| "node_ids acc (c # s) =
     (if is_word c then node_ids (acc @ [c]) s
      else if c = CHR ''['' \<and> acc \<noteq> [] then acc # node_ids [] s
      else node_ids [] s)"

definition node_style :: "string \<Rightarrow> string" where
  "node_style node =
     (let lowerNode = toLowerCase node; has = includes_str lowerNode in
      if has ''client'' \<or> has ''web'' \<or> has ''mobile'' \<or> has ''user'' then
        ''style '' @ node @ '' fill:#E8F5E9,stroke:#2E7D32,color:#1B5E20''
      else if has ''api'' \<or> has ''gateway'' \<or> has ''lb'' \<or> has ''load'' then
        ''style '' @ node @ '' fill:#E3F2FD,stroke:#1565C0,color:#0D47A1''
      else if has ''db'' \<or> has ''database'' \<or> has ''postgres'' \<or> has ''mongo'' then
        ''style '' @ node @ '' fill:#F3E5F5,stroke:#7B1FA2,color:#4A148C''
      else if has ''cache'' \<or> has ''redis'' then
        ''style '' @ node @ '' fill:#FFEBEE,stroke:#C62828,color:#B71C1C''
      else if has ''queue'' \<or> has ''kafka'' \<or> has ''rabbit'' then
        ''style '' @ node @ '' fill:#FFF8E1,stroke:#F9A825,color:#F57F17''
      else if has ''service'' \<or> has ''worker'' then
        ''style '' @ node @ '' fill:#FFF3E0,stroke:#EF6C00,color:#E65100''
      else
        ''style '' @ node @ '' fill:#ECEFF1,stroke:#546E7A,color:#37474F'')"

text \<open>\<open>xs.join(sep)\<close>.\<close>

fun join :: "string \<Rightarrow> string list \<Rightarrow> string" where
  "join sep [] = []"
| "join sep [x] = x"
| "join sep (x # y # ys) = x @ sep @ join sep (y # ys)"

definition addDefaultStyles :: "string \<Rightarrow> string" where
  "addDefaultStyles diagram =
     (let styles = map node_style (node_ids [] diagram) in
      if length styles > 0 then diagram @ nl @ nl @ ''    '' @ join (nl @ ''    '') styles
      else diagram)"

text \<open>\<open>xs.find(p)\<close>: the first element that satisfies \<open>p\<close>, or undefined.\<close>

definition find_str :: "string list \<Rightarrow> (string \<Rightarrow> bool) \<Rightarrow> string option" where
  "find_str xs p = List.find p xs"

text \<open>\<open>a || b\<close> on an optional string: \<open>b\<close> when \<open>a\<close> is undefined or empty.\<close>

definition or_str :: "string option \<Rightarrow> string \<Rightarrow> string" where
  "or_str a b = (case a of None \<Rightarrow> b | Some x \<Rightarrow> if x = [] then b else x)"

definition or_list :: "'a list option \<Rightarrow> 'a list \<Rightarrow> 'a list" where
  "or_list a b = (case a of None \<Rightarrow> b | Some xs \<Rightarrow> xs)"

definition strs :: "string list \<Rightarrow> json" where
  "strs xs = JArr (map JStr xs)"

text \<open>
  The three diagram templates of \<open>generateMockDesign\<close> start with the line
  \<open>flowchart TB\<close>; the lines after it (subgraphs, edges and style lines, with characters
  outside the range modelled here) take part in no decision of the program and are the
  parameter \<open>body\<close>, one text for each detail level.
\<close>

definition mock_diagram :: "(DetailLevel \<Rightarrow> string) \<Rightarrow> DetailLevel \<Rightarrow> string" where
  "mock_diagram body level =
     (if level = OVERVIEW then ''flowchart TB'' @ nl @ body OVERVIEW
      else if level = DETAILED then ''flowchart TB'' @ nl @ body DETAILED
      else ''flowchart TB'' @ nl @ body STANDARD)"

definition mock_components :: "string \<Rightarrow> string list \<Rightarrow> json" where
  "mock_components language must =
     JArr
      [JObj
        [(''name'', JStr ''Web Application''),
         (''type'', JStr ''Frontend''),
         (''description'', JStr ''Modern single-page application with responsive design''),
         (''technologies'',
            strs [if language = ''TypeScript'' then ''React + TypeScript'' else ''React + '' @ language,
                  ''Tailwind CSS'',
                  if ''Next.js'' \<in> set must then ''Next.js'' else ''Vite'']),
         (''icon'', JStr ''react''),
         (''cloudProvider'', JStr ''Vercel''),
         (''framework'', JStr ''Next.js'')],
       JObj
        [(''name'', JStr ''API Gateway''),
         (''type'', JStr ''Gateway''),
         (''description'', JStr ''Central API layer handling authentication and routing''),
         (''technologies'',
            strs [if ''Express'' \<in> set must then ''Express.js'' else ''Fastify'',
                  language,
                  ''JWT Authentication'']),
         (''icon'', JStr ''nodejs''),
         (''cloudProvider'', JStr ''AWS''),
         (''framework'', JStr ''Express.js'')],
       JObj
        [(''name'', JStr ''Core Service''),
         (''type'', JStr ''Backend''),
         (''description'', JStr ''Business logic implementation with domain patterns''),
         (''technologies'', strs [language, ''Domain Events'', ''CQRS'']),
         (''icon'', JStr ''nodejs''),
         (''framework'', JStr ''NestJS'')]]"

definition mock_dataStores :: "string list \<Rightarrow> bool \<Rightarrow> json" where
  "mock_dataStores must isLargeScale =
     JArr
      [JObj
        [(''name'', JStr ''Primary Database''),
         (''type'', JStr ''Relational''),
         (''description'', JStr ''Main data store for structured business data''),
         (''technology'',
            JStr (or_str (find_str must (\<lambda>t. t \<in> set [''PostgreSQL'', ''MySQL''])) ''PostgreSQL'')),
         (''icon'', JStr ''postgresql''),
         (''cloudService'', JStr (if isLargeScale then ''Amazon Aurora'' else ''Amazon RDS''))],
       JObj
        [(''name'', JStr ''Cache Layer''),
         (''type'', JStr ''In-Memory''),
         (''description'', JStr ''High-performance caching for sessions and hot data''),
         (''technology'', JStr ''Redis''),
         (''icon'', JStr ''redis''),
         (''cloudService'', JStr ''Amazon ElastiCache'')]]"

definition mock_apis :: json where
  "mock_apis =
     JArr
      [JObj
        [(''name'', JStr ''REST API''),
         (''type'', JStr ''REST''),
         (''description'', JStr ''Primary API for client-server communication''),
         (''endpoints'', strs [''POST /api/auth/login'', ''GET /api/resources'', ''POST /api/resources'']),
         (''protocol'', JStr ''HTTPS''),
         (''authentication'', JStr ''JWT'')],
       JObj
        [(''name'', JStr ''WebSocket API''),
         (''type'', JStr ''WebSocket''),
         (''description'', JStr ''Real-time communication for live updates''),
         (''endpoints'', strs [''wss://api.example.com/ws'']),
         (''protocol'', JStr ''WSS''),
         (''authentication'', JStr ''JWT'')]]"

definition mock_security :: json where
  "mock_security =
     JArr
      [JObj
        [(''category'', JStr ''Authentication''),
         (''measures'', strs [''JWT-based auth with refresh tokens'', ''OAuth 2.0 support'', ''Rate limiting'']),
         (''tools'', strs [''Auth0'', ''AWS Cognito''])],
       JObj
        [(''category'', JStr ''Data Protection''),
         (''measures'', strs [''TLS 1.3 encryption'', ''Password hashing with bcrypt'', ''Input validation'']),
         (''tools'', strs [''AWS KMS'', ''HashiCorp Vault''])]]"

definition mock_scaleChanges :: "bool \<Rightarrow> bool \<Rightarrow> json" where
  "mock_scaleChanges isLargeScale isMediumScale =
     JArr
      [JObj
        [(''category'', JStr ''Compute''),
         (''description'',
            JStr (if isLargeScale then ''Auto-scaling Kubernetes clusters across regions''
                  else if isMediumScale then ''Horizontal pod autoscaling''
                  else ''Single instance deployment'')),
         (''services'', if isLargeScale then strs [''EKS'', ''Fargate'', ''CloudFront'']
                        else strs [''EC2'', ''ALB''])],
       JObj
        [(''category'', JStr ''Database''),
         (''description'',
            JStr (if isLargeScale then ''Multi-region Aurora with read replicas''
                  else if isMediumScale then ''RDS with read replica''
                  else ''Single RDS instance'')),
         (''services'', if isLargeScale then strs [''Aurora Global'', ''DynamoDB Global Tables'']
                        else strs [''RDS''])]]"

text \<open>\<open>generateMockDesign\<close>: the fallback design, a function of the input alone.\<close>

definition generateMockDesign :: "(DetailLevel \<Rightarrow> string) \<Rightarrow> DesignInput \<Rightarrow> GeneratedDesign" where
  "generateMockDesign body input =
     (let language = or_str (preferredLanguage (constraints input)) ''TypeScript'';
          must = or_list (mustUse (constraints input)) [];
          isLargeScale = (scaleProfile input = DAU_1M);
          isMediumScale = (scaleProfile input = DAU_1K);
          level = (case detailLevel input of None \<Rightarrow> STANDARD | Some l \<Rightarrow> l)
      in \<lparr>design =
            JObj
             [(''components'', mock_components language must),
              (''dataStores'', mock_dataStores must isLargeScale),
              (''apis'', mock_apis),
              (''security'', mock_security),
              (''scaleChanges'', mock_scaleChanges isLargeScale isMediumScale),
              (''cloudProvider'', JStr ''AWS''),
              (''architectureStyle'', JStr (if isLargeScale then ''Microservices'' else ''Modular Monolith''))],
          mermaidDiagram = mock_diagram body level\<rparr>)"

text \<open>
  The \<open>try\<close> block of \<open>generateDesign\<close>, from the response on: \<open>Inl\<close> is the
  exception the \<open>catch\<close> clause receives. The three \<open>length\<close> reads stand in the
  argument of the last \<open>console.log\<close> before the \<open>return\<close>.
\<close>

definition generateDesign_try :: "response \<Rightarrow> thrown + GeneratedDesign" where
  "generateDesign_try r =
     (case r of
        Throws e \<Rightarrow> Inl e
      | NoContent \<Rightarrow> Inl (Error ''No content in OpenAI response'')
      | Malformed m \<Rightarrow> Inl (Error m)
      | Parsed d m \<Rightarrow>
          (case (d, m) of
             (Some dv, Some dg) \<Rightarrow>
               if \<not> truthy dv \<or> dg = [] then Inl (Error ''Invalid response structure from OpenAI'')
               else
                 let diagram = (if \<not> includes_str dg ''style '' then addDefaultStyles dg else dg) in
                 if length_readable (property dv ''components'')
                    \<and> length_readable (property dv ''dataStores'')
                    \<and> length_readable (property dv ''apis'')
                 then Inr \<lparr>design = dv, mermaidDiagram = diagram\<rparr>
                 else Inl TypeError
           | _ \<Rightarrow> Inl (Error ''Invalid response structure from OpenAI'')))"

text \<open>
  \<open>generateDesign\<close>: whatever the \<open>try\<close> block throws is logged and answered with
  \<open>generateMockDesign(input)\<close>.
\<close>

definition generateDesign :: "(DetailLevel \<Rightarrow> string) \<Rightarrow> response \<Rightarrow> DesignInput \<Rightarrow> thrown + GeneratedDesign" where
  "generateDesign body r input =
     (case generateDesign_try r of
        Inr g \<Rightarrow> Inr g
      | Inl e \<Rightarrow> Inr (generateMockDesign body input))"

section \<open>The stores: tables, queues and the status cache\<close>

record GenerateDesignJobData = DesignInput +
  designRequestId :: ident

record RenderDiagramJobData =
  renderRequestId :: ident
  renderSource :: string

datatype Metadata = DesignJob GenerateDesignJobData | DiagramJob RenderDiagramJobData

text \<open>
  The rows of \<open>migration.sql\<close>. A timestamp column holds the reading of the clock at the
  write; the columns \<open>created_at\<close> and \<open>updated_at\<close>, which no operation here reads, are
  left out.
\<close>

record Job =
  job_id :: ident
  job_type :: JobType
  job_status :: JobStatus
  job_progress :: int
  job_request :: ident
  job_metadata :: Metadata
  job_error :: "string option"
  job_startedAt :: "nat option"
  job_completedAt :: "nat option"

record Project =
  project_id :: ident
  isTemplate :: bool

record DesignRequest =
  rq_id :: ident
  rq_userId :: ident
  rq_project :: ident
  rq_inputType :: InputType
  rq_promptText :: "string option"
  rq_repoUrl :: "string option"
  rq_constraints :: Constraints
  rq_scaleProfile :: ScaleProfile
  rq_detailLevel :: DetailLevel

record DesignVersion =
  dv_id :: ident
  dv_version :: int
  dv_request :: ident
  dv_data :: json

record DiagramVersion =
  gv_id :: ident
  gv_version :: int
  gv_request :: ident
  gv_designVersion :: "ident option"
  gv_source :: string
  gv_svg :: "string option"

text \<open>The Redis hash \<open>job:<id>\<close> with its time to live (\<open>None\<close>: the key never expires).\<close>

record StatusRecord =
  st_status :: JobStatus
  st_progress :: int
  st_message :: string
  st_updatedAt :: nat
  st_ttl :: "nat option"

text \<open>
  Everything the handlers share. Tables keep their rows in insertion order.
  \<open>cache_log\<close> is a history variable: every write of a job's status hash, in order;
  no operation reads it.
\<close>

record world =
  jobs :: "Job list"
  projects :: "Project list"
  design_requests :: "DesignRequest list"
  design_versions :: "DesignVersion list"
  diagram_versions :: "DiagramVersion list"
  designQueue :: "(ident \<times> GenerateDesignJobData) list"
  diagramQueue :: "(ident \<times> RenderDiagramJobData) list"
  cache :: "ident \<Rightarrow> StatusRecord option"
  cache_log :: "(ident \<times> JobStatus \<times> int) list"
  next_id :: nat
  clock :: nat

text \<open>
  An awaited call on a store may fail for reasons outside the state modelled here (a lost
  connection, a timeout). Each such call takes the environment's verdict as its first
  argument: \<open>Some e\<close> makes it throw \<open>e\<close> with no effect, \<open>None\<close> lets it run.
\<close>

definition unique_violation :: thrown where
  "unique_violation = Error ''Unique constraint failed on the fields: (design_request_id,version)''"

definition foreign_key_violation :: thrown where
  "foreign_key_violation = Error ''Foreign key constraint failed on the field: design_request_id''"

definition record_not_found :: thrown where
  "record_not_found = Error ''Record to update not found.''"

definition request_exists :: "ident \<Rightarrow> world \<Rightarrow> bool" where
  "request_exists r w = list_ex (\<lambda>q. rq_id q = r) (design_requests w)"

text \<open>\<open>updateJobStatus\<close> of the worker: one \<open>hset\<close>; the key keeps the expiry it has.\<close>

definition updateJobStatus :: "ident \<Rightarrow> JobStatus \<Rightarrow> int \<Rightarrow> string \<Rightarrow> world \<Rightarrow> world" where
  "updateJobStatus jobId st p message w =
     w\<lparr>cache := (cache w)(jobId \<mapsto>
            \<lparr>st_status = st, st_progress = p, st_message = message, st_updatedAt = clock w,
             st_ttl = (case cache w jobId of None \<Rightarrow> None | Some old \<Rightarrow> st_ttl old)\<rparr>),
       cache_log := cache_log w @ [(jobId, st, p)]\<rparr>"

text \<open>\<open>redis.expire(key, 86400)\<close>; no effect on a key that does not exist.\<close>

definition expire :: "ident \<Rightarrow> nat \<Rightarrow> world \<Rightarrow> world" where
  "expire jobId secs w =
     (case cache w jobId of
        None \<Rightarrow> w
      | Some r \<Rightarrow> w\<lparr>cache := (cache w)(jobId \<mapsto> r\<lparr>st_ttl := Some secs\<rparr>)\<rparr>)"

text \<open>\<open>getJobStatus\<close> of \<open>lib/redis.ts\<close>: null when the hash is absent.\<close>

definition getJobStatus :: "ident \<Rightarrow> world \<Rightarrow> (JobStatus \<times> int \<times> string option) option" where
  "getJobStatus jobId w =
     (case cache w jobId of
        None \<Rightarrow> None
      | Some r \<Rightarrow> Some (st_status r, st_progress r,
                         if st_message r = [] then None else Some (st_message r)))"

text \<open>\<open>db.job.update({where: {id}, data})\<close>: throws when no row has the id.\<close>

definition job_update :: "ident \<Rightarrow> (Job \<Rightarrow> Job) \<Rightarrow> world \<Rightarrow> thrown + world" where
  "job_update jobId f w =
     (if list_ex (\<lambda>j. job_id j = jobId) (jobs w)
      then Inr (w\<lparr>jobs := map (\<lambda>j. if job_id j = jobId then f j else j) (jobs w)\<rparr>)
      else Inl record_not_found)"

text \<open>
  \<open>findFirst({where: {designRequestId}, orderBy: {version: "desc"}})\<close>: a row of the
  request with the greatest version, if the request has rows.
\<close>

fun max_row :: "('a \<Rightarrow> int) \<Rightarrow> 'a list \<Rightarrow> 'a option" where
  "max_row ver [] = None"
| "max_row ver (x # xs) =
     (case max_row ver xs of
        None \<Rightarrow> Some x
      | Some y \<Rightarrow> if ver x < ver y then Some y else Some x)"

definition designVersions_of :: "ident \<Rightarrow> world \<Rightarrow> DesignVersion list" where
  "designVersions_of r w = filter (\<lambda>v. dv_request v = r) (design_versions w)"

definition diagramVersions_of :: "ident \<Rightarrow> world \<Rightarrow> DiagramVersion list" where
  "diagramVersions_of r w = filter (\<lambda>v. gv_request v = r) (diagram_versions w)"

definition designVersion_findFirst :: "ident \<Rightarrow> world \<Rightarrow> DesignVersion option" where
  "designVersion_findFirst r w = max_row dv_version (designVersions_of r w)"

definition diagramVersion_findFirst :: "ident \<Rightarrow> world \<Rightarrow> DiagramVersion option" where
  "diagramVersion_findFirst r w = max_row gv_version (diagramVersions_of r w)"

text \<open>\<open>(latest?.version || 0) + 1\<close>.\<close>

definition next_version :: "int option \<Rightarrow> int" where
  "next_version latest = (case latest of None \<Rightarrow> 0 | Some n \<Rightarrow> if n = 0 then 0 else n) + 1"

text \<open>
  \<open>db.designVersion.create\<close>: the database checks the unique index on
  (design_request_id, version) when it inserts the row, and the foreign key to the request
  at the end of the statement.
\<close>

definition designVersion_create ::
  "ident \<Rightarrow> int \<Rightarrow> json \<Rightarrow> world \<Rightarrow> thrown + (DesignVersion \<times> world)" where
  "designVersion_create r n d w =
     (if list_ex (\<lambda>v. dv_request v = r \<and> dv_version v = n) (design_versions w)
      then Inl unique_violation
      else if \<not> request_exists r w then Inl foreign_key_violation
      else
        let row = \<lparr>dv_id = next_id w, dv_version = n, dv_request = r, dv_data = d\<rparr>
        in Inr (row, w\<lparr>design_versions := design_versions w @ [row], next_id := Suc (next_id w)\<rparr>))"

definition diagramVersion_create ::
  "ident \<Rightarrow> ident option \<Rightarrow> int \<Rightarrow> string \<Rightarrow> string option \<Rightarrow> world \<Rightarrow> thrown + (DiagramVersion \<times> world)" where
  "diagramVersion_create r dvid n src svg w =
     (if list_ex (\<lambda>v. gv_request v = r \<and> gv_version v = n) (diagram_versions w)
      then Inl unique_violation
      else if \<not> request_exists r w then Inl foreign_key_violation
      else
        let row = \<lparr>gv_id = next_id w, gv_version = n, gv_request = r, gv_designVersion = dvid,
                   gv_source = src, gv_svg = svg\<rparr>
        in Inr (row, w\<lparr>diagram_versions := diagram_versions w @ [row], next_id := Suc (next_id w)\<rparr>))"

text \<open>
  \<open>db.job.create\<close> of the enqueue helpers: \<open>progress\<close> and the optional columns take
  their defaults.
\<close>

definition job_create :: "JobType \<Rightarrow> ident \<Rightarrow> Metadata \<Rightarrow> world \<Rightarrow> thrown + (Job \<times> world)" where
  "job_create t r m w =
     (if \<not> request_exists r w then Inl foreign_key_violation
      else
        let row = \<lparr>job_id = next_id w, job_type = t, job_status = PENDING, job_progress = 0,
                   job_request = r, job_metadata = m, job_error = None,
                   job_startedAt = None, job_completedAt = None\<rparr>
        in Inr (row, w\<lparr>jobs := jobs w @ [row], next_id := Suc (next_id w)\<rparr>))"

section \<open>Enqueueing (\<open>lib/queue.ts\<close>)\<close>

record enqueue_env =
  on_create :: "thrown option"
  on_add :: "thrown option"
  on_hset :: "thrown option"
  on_expire :: "thrown option"

text \<open>\<open>setJobStatus\<close> of \<open>lib/redis.ts\<close>: the \<open>hset\<close>, then a day's expiry.\<close>

definition setJobStatus ::
  "thrown option \<Rightarrow> thrown option \<Rightarrow> ident \<Rightarrow> JobStatus \<Rightarrow> int \<Rightarrow> string \<Rightarrow> world
   \<Rightarrow> thrown option \<times> world" where
  "setJobStatus on_h on_e jobId st p message w =
     (case on_h of
        Some e \<Rightarrow> (Some e, w)
      | None \<Rightarrow>
         let w1 = updateJobStatus jobId st p message w in
         (case on_e of
            Some e \<Rightarrow> (Some e, w1)
          | None \<Rightarrow> (None, expire jobId 86400 w1)))"

text \<open>
  \<open>enqueueDesignGeneration\<close>: the Job row, then the queue entry, then the status hash.
  The result pairs what the promise settles to with the stores as the call leaves them.
\<close>

definition enqueueDesignGeneration ::
  "enqueue_env \<Rightarrow> GenerateDesignJobData \<Rightarrow> world \<Rightarrow> (thrown + ident) \<times> world" where
  "enqueueDesignGeneration env data w =
     (case on_create env of
        Some e \<Rightarrow> (Inl e, w)
      | None \<Rightarrow>
         (case job_create GENERATE_DESIGN (designRequestId data) (DesignJob data) w of
            Inl e \<Rightarrow> (Inl e, w)
          | Inr (job, w1) \<Rightarrow>
             (case on_add env of
                Some e \<Rightarrow> (Inl e, w1)
              | None \<Rightarrow>
                 let w2 = w1\<lparr>designQueue := designQueue w1 @ [(job_id job, data)]\<rparr> in
                 (case setJobStatus (on_hset env) (on_expire env) (job_id job) PENDING 0 ''Job queued'' w2 of
                    (Some e, w3) \<Rightarrow> (Inl e, w3)
                  | (None, w3) \<Rightarrow> (Inr (job_id job), w3)))))"

section \<open>The routers (\<open>server/routers\<close>)\<close>

datatype trpc_code = UNAUTHORIZED | TOO_MANY_REQUESTS | BAD_REQUEST | NOT_FOUND | FORBIDDEN

text \<open>A procedure fails with a \<open>TRPCError\<close> of its own or with what a store threw.\<close>

datatype failure = TRPCError trpc_code string | Rejected thrown

record Context =
  userId :: "ident option"

record refine_input =
  ri_designRequestId :: ident
  ri_refinementPrompt :: string
  ri_detailLevel :: "DetailLevel option"
  ri_suggestions :: "string list"

text \<open>\<open>s || undefined\<close> on a nullable column.\<close>

definition or_undefined :: "string option \<Rightarrow> string option" where
  "or_undefined a = (case a of None \<Rightarrow> None | Some x \<Rightarrow> if x = [] then None else Some x)"

text \<open>
  \<open>designsRouter.refineDesign\<close>. The procedure is \<open>rateLimitedProcedure\<close>: the auth
  check, the rate limiter (its verdict is the argument \<open>allowed\<close>; its counters live in
  keys of their own) and the input schema come before the resolver.
\<close>

definition refineDesign ::
  "enqueue_env \<Rightarrow> bool \<Rightarrow> Context \<Rightarrow> refine_input \<Rightarrow> world \<Rightarrow> (failure + ident \<times> string) \<times> world" where
  "refineDesign env allowed ctx input w =
     (case userId ctx of
        None \<Rightarrow> (Inl (TRPCError UNAUTHORIZED ''You must be logged in to perform this action''), w)
      | Some uid \<Rightarrow>
         if \<not> allowed then (Inl (TRPCError TOO_MANY_REQUESTS ''Rate limit exceeded''), w)
         else if length (ri_refinementPrompt input) < 1 \<or> 2000 < length (ri_refinementPrompt input)
         then (Inl (TRPCError BAD_REQUEST ''Input validation failed''), w)
         else
          (case List.find (\<lambda>q. rq_id q = ri_designRequestId input \<and> rq_userId q = uid)
                  (design_requests w) of
             None \<Rightarrow> (Inl (TRPCError NOT_FOUND ''Design request not found''), w)
           | Some request \<Rightarrow>
              (case List.find (\<lambda>p. project_id p = rq_project request) (projects w) of
                 None \<Rightarrow> (Inl (Rejected TypeError), w)
               | Some project \<Rightarrow>
                  if isTemplate project
                  then (Inl (TRPCError FORBIDDEN ''Cannot refine template designs''), w)
                  else
                   (case designVersion_findFirst (rq_id request) w of
                      None \<Rightarrow>
                        (Inl (TRPCError BAD_REQUEST ''No existing design version to refine''), w)
                    | Some latestVersion \<Rightarrow>
                       (case enqueueDesignGeneration env
                               \<lparr>inputType = rq_inputType request,
                                promptText = or_undefined (rq_promptText request),
                                repoUrl = or_undefined (rq_repoUrl request),
                                constraints = rq_constraints request,
                                scaleProfile = rq_scaleProfile request,
                                detailLevel = Some (case ri_detailLevel input of
                                                      Some l \<Rightarrow> l | None \<Rightarrow> rq_detailLevel request),
                                suggestions = Some (ri_suggestions input),
                                existingDesign = Some (dv_data latestVersion),
                                refinementPrompt = Some (ri_refinementPrompt input),
                                designRequestId = rq_id request\<rparr> w of
                          (Inl e, w') \<Rightarrow> (Inl (Rejected e), w')
                        | (Inr jobId, w') \<Rightarrow> (Inr (jobId, ''Refinement job enqueued''), w'))))))"

record status_view =
  sv_id :: ident
  sv_type :: JobType
  sv_status :: JobStatus
  sv_progress :: int
  sv_message :: "string option"
  sv_request :: ident
  sv_startedAt :: "nat option"
  sv_completedAt :: "nat option"

text \<open>
  \<open>jobsRouter.getStatus\<close> (a \<open>protectedProcedure\<close>): the Job row is read first for the
  access check; the answer takes status, progress and message from the status hash when
  \<open>getJobStatus\<close> finds it and from the row otherwise. \<open>on_read\<close> is the environment's
  verdict on the cache read.
\<close>

definition getStatus :: "thrown option \<Rightarrow> Context \<Rightarrow> ident \<Rightarrow> world \<Rightarrow> failure + status_view" where
  "getStatus on_read ctx jid w =
     (case userId ctx of
        None \<Rightarrow> Inl (TRPCError UNAUTHORIZED ''You must be logged in to perform this action'')
      | Some uid \<Rightarrow>
         (case List.find (\<lambda>j. job_id j = jid) (jobs w) of
            None \<Rightarrow> Inl (TRPCError NOT_FOUND ''Job not found'')
          | Some job \<Rightarrow>
             (case List.find (\<lambda>q. rq_id q = job_request job) (design_requests w) of
                None \<Rightarrow> Inl (Rejected TypeError)
              | Some request \<Rightarrow>
                 if rq_userId request \<noteq> uid
                 then Inl (TRPCError FORBIDDEN ''You do not have access to this job'')
                 else
                  (case on_read of
                     Some e \<Rightarrow> Inl (Rejected e)
                   | None \<Rightarrow>
                      (case getJobStatus jid w of
                         Some (st, p, m) \<Rightarrow>
                           Inr \<lparr>sv_id = job_id job, sv_type = job_type job, sv_status = st,
                                sv_progress = p, sv_message = m, sv_request = job_request job,
                                sv_startedAt = None, sv_completedAt = None\<rparr>
                       | None \<Rightarrow>
                           Inr \<lparr>sv_id = job_id job, sv_type = job_type job,
                                sv_status = job_status job, sv_progress = job_progress job,
                                sv_message = or_undefined (job_error job),
                                sv_request = job_request job,
                                sv_startedAt = job_startedAt job,
                                sv_completedAt = job_completedAt job\<rparr>)))))"

section \<open>The worker (\<open>worker/index.ts\<close>)\<close>

text \<open>
  A handler runs from one \<open>await\<close> to the next; other handlers run in between. A
  control point names the awaited call that comes next and carries the local variables
  that are live there. The comment gives the line of the call in \<open>worker/index.ts\<close>.
\<close>

datatype dpc =
    D_Start                                 \<comment> \<open>67: updateJobStatus PROCESSING 10\<close>
  | D_JobProcessing                         \<comment> \<open>68: db.job.update PROCESSING\<close>
  | D_Analyze                               \<comment> \<open>75: updateJobStatus PROCESSING 30\<close>
  | D_Generating                            \<comment> \<open>94: updateJobStatus PROCESSING 50\<close>
  | D_Generate                              \<comment> \<open>95: generateDesign\<close>
  | D_FindDesign GeneratedDesign            \<comment> \<open>98: db.designVersion.findFirst\<close>
  | D_Saving GeneratedDesign int            \<comment> \<open>104: updateJobStatus PROCESSING 70\<close>
  | D_CreateDesign GeneratedDesign int      \<comment> \<open>107: db.designVersion.create\<close>
  | D_Rendering GeneratedDesign ident       \<comment> \<open>115: updateJobStatus PROCESSING 85\<close>
  | D_Render GeneratedDesign ident          \<comment> \<open>118: renderMermaidToSvg\<close>
  | D_FindDiagram ident RenderResult        \<comment> \<open>121: db.diagramVersion.findFirst\<close>
  | D_CreateDiagram ident RenderResult int  \<comment> \<open>128: db.diagramVersion.create\<close>
  | D_Complete ident                        \<comment> \<open>139: updateJobStatus COMPLETED 100\<close>
  | D_JobCompleted ident                    \<comment> \<open>140: db.job.update COMPLETED\<close>
  | D_Quit ident                            \<comment> \<open>150: redis.quit\<close>
  | D_Returned ident                        \<comment> \<open>152: return\<close>
  | D_Catch thrown                          \<comment> \<open>158: updateJobStatus FAILED 0\<close>
  | D_CatchJob thrown                       \<comment> \<open>159: db.job.update FAILED\<close>
  | D_CatchQuit thrown                      \<comment> \<open>168: redis.quit\<close>
  | D_Thrown thrown                         \<comment> \<open>169: throw error\<close>
  | D_Escaped thrown                        \<comment> \<open>an exception raised inside the catch block\<close>

definition isRefinement :: "GenerateDesignJobData \<Rightarrow> bool" where
  "isRefinement d =
     ((case refinementPrompt d of None \<Rightarrow> False | Some s \<Rightarrow> s \<noteq> [])
      \<and> (case existingDesign d of None \<Rightarrow> False | Some j \<Rightarrow> truthy j))"

text \<open>The \<open>DesignInput\<close> built at lines 77-91.\<close>

definition worker_input :: "GenerateDesignJobData \<Rightarrow> DesignInput" where
  "worker_input d =
     \<lparr>inputType = inputType d,
      promptText = promptText d,
      repoUrl = repoUrl d,
      constraints =
        \<lparr>mustUse = Some (or_list (mustUse (constraints d)) []),
         avoid = Some (or_list (avoid (constraints d)) []),
         preferredLanguage = preferredLanguage (constraints d)\<rparr>,
      scaleProfile = scaleProfile d,
      detailLevel = Some (case detailLevel d of None \<Rightarrow> STANDARD | Some l \<Rightarrow> l),
      suggestions = Some (or_list (suggestions d) []),
      existingDesign = existingDesign d,
      refinementPrompt = refinementPrompt d\<rparr>"

text \<open>
  One step of the design-generation handler for the job \<open>jobId\<close> with data \<open>d\<close>:
  \<open>f\<close> is the environment's verdict on the awaited call, \<open>r\<close> the provider's response.
  A call that throws inside the \<open>try\<close> block leads to \<open>D_Catch\<close>.
\<close>

fun dstep ::
  "(DetailLevel \<Rightarrow> string) \<Rightarrow> thrown option \<Rightarrow> response \<Rightarrow> ident \<Rightarrow> GenerateDesignJobData
   \<Rightarrow> dpc \<Rightarrow> world \<Rightarrow> dpc \<times> world" where
  "dstep body f r jobId d D_Start w =
     (case f of
        Some e \<Rightarrow> (D_Catch e, w)
      | None \<Rightarrow>
         (D_JobProcessing,
          updateJobStatus jobId PROCESSING 10
            (if isRefinement d then ''Starting design refinement...''
             else ''Starting design generation...'') w))"
| "dstep body f r jobId d D_JobProcessing w =
     (case f of
        Some e \<Rightarrow> (D_Catch e, w)
      | None \<Rightarrow>
         (case job_update jobId
                 (\<lambda>j. j\<lparr>job_status := PROCESSING, job_startedAt := Some (clock w),
                         job_progress := 10\<rparr>) w of
            Inl e \<Rightarrow> (D_Catch e, w)
          | Inr w' \<Rightarrow> (D_Analyze, w')))"
| "dstep body f r jobId d D_Analyze w =
     (case f of
        Some e \<Rightarrow> (D_Catch e, w)
      | None \<Rightarrow>
         (D_Generating,
          updateJobStatus jobId PROCESSING 30
            (if isRefinement d then ''Analyzing refinement request...''
             else ''Analyzing requirements...'') w))"
| "dstep body f r jobId d D_Generating w =
     (case f of
        Some e \<Rightarrow> (D_Catch e, w)
      | None \<Rightarrow>
         (D_Generate,
          updateJobStatus jobId PROCESSING 50
            (if isRefinement d then ''Refining architecture...''
             else ''Generating architecture...'') w))"
| "dstep body f r jobId d D_Generate w =
     (case generateDesign body r (worker_input d) of
        Inl e \<Rightarrow> (D_Catch e, w)
      | Inr result \<Rightarrow> (D_FindDesign result, w))"
| "dstep body f r jobId d (D_FindDesign result) w =
     (case f of
        Some e \<Rightarrow> (D_Catch e, w)
      | None \<Rightarrow>
         (D_Saving result
            (next_version (map_option dv_version (designVersion_findFirst (designRequestId d) w))),
          w))"
| "dstep body f r jobId d (D_Saving result nextVersion) w =
     (case f of
        Some e \<Rightarrow> (D_Catch e, w)
      | None \<Rightarrow>
         (D_CreateDesign result nextVersion,
          updateJobStatus jobId PROCESSING 70 ''Saving design version...'' w))"
| "dstep body f r jobId d (D_CreateDesign result nextVersion) w =
     (case f of
        Some e \<Rightarrow> (D_Catch e, w)
      | None \<Rightarrow>
         (case designVersion_create (designRequestId d) nextVersion (design result) w of
            Inl e \<Rightarrow> (D_Catch e, w)
          | Inr (designVersion, w') \<Rightarrow> (D_Rendering result (dv_id designVersion), w')))"
| "dstep body f r jobId d (D_Rendering result dvid) w =
     (case f of
        Some e \<Rightarrow> (D_Catch e, w)
      | None \<Rightarrow>
         (D_Render result dvid,
          updateJobStatus jobId PROCESSING 85 ''Rendering diagram...'' w))"
| "dstep body f r jobId d (D_Render result dvid) w =
     (D_FindDiagram dvid (renderMermaidToSvg (mermaidDiagram result)), w)"
| "dstep body f r jobId d (D_FindDiagram dvid renderResult) w =
     (case f of
        Some e \<Rightarrow> (D_Catch e, w)
      | None \<Rightarrow>
         (D_CreateDiagram dvid renderResult
            (next_version (map_option gv_version (diagramVersion_findFirst (designRequestId d) w))),
          w))"
| "dstep body f r jobId d (D_CreateDiagram dvid renderResult nextDiagramVersion) w =
     (case f of
        Some e \<Rightarrow> (D_Catch e, w)
      | None \<Rightarrow>
         (case diagramVersion_create (designRequestId d) (Some dvid) nextDiagramVersion
                 (mermaidSource renderResult) (svgContent renderResult) w of
            Inl e \<Rightarrow> (D_Catch e, w)
          | Inr (row, w') \<Rightarrow> (D_Complete dvid, w')))"
| "dstep body f r jobId d (D_Complete dvid) w =
     (case f of
        Some e \<Rightarrow> (D_Catch e, w)
      | None \<Rightarrow>
         (D_JobCompleted dvid,
          updateJobStatus jobId COMPLETED 100 ''Design generated successfully!'' w))"
| "dstep body f r jobId d (D_JobCompleted dvid) w =
     (case f of
        Some e \<Rightarrow> (D_Catch e, w)
      | None \<Rightarrow>
         (case job_update jobId
                 (\<lambda>j. j\<lparr>job_status := COMPLETED, job_progress := 100,
                         job_completedAt := Some (clock w)\<rparr>) w of
            Inl e \<Rightarrow> (D_Catch e, w)
          | Inr w' \<Rightarrow> (D_Quit dvid, w')))"
| "dstep body f r jobId d (D_Quit dvid) w =
     (case f of
        Some e \<Rightarrow> (D_Catch e, w)
      | None \<Rightarrow> (D_Returned dvid, w))"
| "dstep body f r jobId d (D_Returned dvid) w = (D_Returned dvid, w)"
| "dstep body f r jobId d (D_Catch err) w =
     (case f of
        Some e \<Rightarrow> (D_Escaped e, w)
      | None \<Rightarrow> (D_CatchJob err, updateJobStatus jobId FAILED 0 (errorMessage err) w))"
| "dstep body f r jobId d (D_CatchJob err) w =
     (case f of
        Some e \<Rightarrow> (D_Escaped e, w)
      | None \<Rightarrow>
         (case job_update jobId
                 (\<lambda>j. j\<lparr>job_status := FAILED, job_error := Some (errorMessage err),
                         job_completedAt := Some (clock w)\<rparr>) w of
            Inl e \<Rightarrow> (D_Escaped e, w)
          | Inr w' \<Rightarrow> (D_CatchQuit err, w')))"
| "dstep body f r jobId d (D_CatchQuit err) w =
     (case f of
        Some e \<Rightarrow> (D_Escaped e, w)
      | None \<Rightarrow> (D_Thrown err, w))"
| "dstep body f r jobId d (D_Thrown err) w = (D_Thrown err, w)"
| "dstep body f r jobId d (D_Escaped err) w = (D_Escaped err, w)"

text \<open>The diagram re-rendering handler, lines 181-233.\<close>

datatype rpc =
    R_Start                        \<comment> \<open>188: updateJobStatus PROCESSING 50\<close>
  | R_JobProcessing                \<comment> \<open>189: db.job.update PROCESSING\<close>
  | R_Render                       \<comment> \<open>194: renderMermaidToSvg\<close>
  | R_Find RenderResult            \<comment> \<open>197: db.diagramVersion.findFirst\<close>
  | R_Create RenderResult int      \<comment> \<open>204: db.diagramVersion.create\<close>
  | R_Complete                     \<comment> \<open>213: updateJobStatus COMPLETED 100\<close>
  | R_JobCompleted                 \<comment> \<open>214: db.job.update COMPLETED\<close>
  | R_Quit                         \<comment> \<open>219: redis.quit\<close>
  | R_Returned                     \<comment> \<open>220: return\<close>
  | R_Catch thrown                 \<comment> \<open>224: updateJobStatus FAILED 0\<close>
  | R_CatchJob thrown              \<comment> \<open>225: db.job.update FAILED\<close>
  | R_CatchQuit thrown             \<comment> \<open>230: redis.quit\<close>
  | R_Thrown thrown                \<comment> \<open>231: throw error\<close>
  | R_Escaped thrown               \<comment> \<open>an exception raised inside the catch block\<close>

fun rstep :: "thrown option \<Rightarrow> ident \<Rightarrow> RenderDiagramJobData \<Rightarrow> rpc \<Rightarrow> world \<Rightarrow> rpc \<times> world" where
  "rstep f jobId d R_Start w =
     (case f of
        Some e \<Rightarrow> (R_Catch e, w)
      | None \<Rightarrow> (R_JobProcessing, updateJobStatus jobId PROCESSING 50 ''Rendering diagram...'' w))"
| "rstep f jobId d R_JobProcessing w =
     (case f of
        Some e \<Rightarrow> (R_Catch e, w)
      | None \<Rightarrow>
         (case job_update jobId
                 (\<lambda>j. j\<lparr>job_status := PROCESSING, job_startedAt := Some (clock w)\<rparr>) w of
            Inl e \<Rightarrow> (R_Catch e, w)
          | Inr w' \<Rightarrow> (R_Render, w')))"
| "rstep f jobId d R_Render w = (R_Find (renderMermaidToSvg (renderSource d)), w)"
| "rstep f jobId d (R_Find renderResult) w =
     (case f of
        Some e \<Rightarrow> (R_Catch e, w)
      | None \<Rightarrow>
         (R_Create renderResult
            (next_version (map_option gv_version (diagramVersion_findFirst (renderRequestId d) w))),
          w))"
| "rstep f jobId d (R_Create renderResult nextVersion) w =
     (case f of
        Some e \<Rightarrow> (R_Catch e, w)
      | None \<Rightarrow>
         (case diagramVersion_create (renderRequestId d) None nextVersion
                 (mermaidSource renderResult) (svgContent renderResult) w of
            Inl e \<Rightarrow> (R_Catch e, w)
          | Inr (row, w') \<Rightarrow> (R_Complete, w')))"
| "rstep f jobId d R_Complete w =
     (case f of
        Some e \<Rightarrow> (R_Catch e, w)
      | None \<Rightarrow> (R_JobCompleted, updateJobStatus jobId COMPLETED 100 ''Diagram rendered!'' w))"
| "rstep f jobId d R_JobCompleted w =
     (case f of
        Some e \<Rightarrow> (R_Catch e, w)
      | None \<Rightarrow>
         (case job_update jobId
                 (\<lambda>j. j\<lparr>job_status := COMPLETED, job_progress := 100,
                         job_completedAt := Some (clock w)\<rparr>) w of
            Inl e \<Rightarrow> (R_Catch e, w)
          | Inr w' \<Rightarrow> (R_Quit, w')))"
| "rstep f jobId d R_Quit w =
     (case f of
        Some e \<Rightarrow> (R_Catch e, w)
      | None \<Rightarrow> (R_Returned, w))"
| "rstep f jobId d R_Returned w = (R_Returned, w)"
| "rstep f jobId d (R_Catch err) w =
     (case f of
        Some e \<Rightarrow> (R_Escaped e, w)
      | None \<Rightarrow> (R_CatchJob err, updateJobStatus jobId FAILED 0 (errorMessage err) w))"
| "rstep f jobId d (R_CatchJob err) w =
     (case f of
        Some e \<Rightarrow> (R_Escaped e, w)
      | None \<Rightarrow>
         (case job_update jobId
                 (\<lambda>j. j\<lparr>job_status := FAILED, job_error := Some (errorMessage err)\<rparr>) w of
            Inl e \<Rightarrow> (R_Escaped e, w)
          | Inr w' \<Rightarrow> (R_CatchQuit err, w')))"
| "rstep f jobId d (R_CatchQuit err) w =
     (case f of
        Some e \<Rightarrow> (R_Escaped e, w)
      | None \<Rightarrow> (R_Thrown err, w))"
| "rstep f jobId d (R_Thrown err) w = (R_Thrown err, w)"
| "rstep f jobId d (R_Escaped err) w = (R_Escaped err, w)"

text \<open>
  One execution of a handler on its own: the steps in order, each with the environment's
  verdict on its call. Eighteen steps end every execution of the design handler, eleven
  every execution of the diagram handler.
\<close>

fun drun ::
  "(DetailLevel \<Rightarrow> string) \<Rightarrow> thrown option list \<Rightarrow> response \<Rightarrow> ident \<Rightarrow> GenerateDesignJobData
   \<Rightarrow> dpc \<times> world \<Rightarrow> dpc \<times> world" where
  "drun body [] r jobId d c = c"
| "drun body (f # fs) r jobId d c = drun body fs r jobId d (dstep body f r jobId d (fst c) (snd c))"

fun rrun :: "thrown option list \<Rightarrow> ident \<Rightarrow> RenderDiagramJobData \<Rightarrow> rpc \<times> world \<Rightarrow> rpc \<times> world" where
  "rrun [] jobId d c = c"
| "rrun (f # fs) jobId d c = rrun fs jobId d (rstep f jobId d (fst c) (snd c))"

definition designWorker ::
  "(DetailLevel \<Rightarrow> string) \<Rightarrow> thrown option list \<Rightarrow> response \<Rightarrow> ident \<Rightarrow> GenerateDesignJobData
   \<Rightarrow> world \<Rightarrow> dpc \<times> world" where
  "designWorker body fs r jobId d w = drun body fs r jobId d (D_Start, w)"

definition diagramWorker ::
  "thrown option list \<Rightarrow> ident \<Rightarrow> RenderDiagramJobData \<Rightarrow> world \<Rightarrow> rpc \<times> world" where
  "diagramWorker fs jobId d w = rrun fs jobId d (R_Start, w)"

definition d_final :: "dpc \<Rightarrow> bool" where
  "d_final pc = (case pc of D_Returned _ \<Rightarrow> True | D_Thrown _ \<Rightarrow> True | D_Escaped _ \<Rightarrow> True
                 | _ \<Rightarrow> False)"

definition r_final :: "rpc \<Rightarrow> bool" where
  "r_final pc = (case pc of R_Returned \<Rightarrow> True | R_Thrown _ \<Rightarrow> True | R_Escaped _ \<Rightarrow> True
                 | _ \<Rightarrow> False)"

section \<open>Handlers running side by side\<close>

text \<open>
  The worker process runs several handler executions at once (\<open>concurrency: 5\<close> and
  \<open>10\<close>), and several worker processes may run. An execution in flight is its job id,
  its job data and its control point; the queue may deliver any job at any time, a failed
  one again. One step of the system is one step of one execution.
\<close>

datatype proc =
    DesignRun ident GenerateDesignJobData response dpc
  | DiagramRun ident RenderDiagramJobData rpc

record system =
  store :: world
  running :: "proc list"

definition proc_step ::
  "(DetailLevel \<Rightarrow> string) \<Rightarrow> thrown option \<Rightarrow> proc \<Rightarrow> world \<Rightarrow> proc \<times> world" where
  "proc_step body f p w =
     (case p of
        DesignRun jobId d r pc \<Rightarrow>
          (case dstep body f r jobId d pc w of (pc', w') \<Rightarrow> (DesignRun jobId d r pc', w'))
      | DiagramRun jobId d pc \<Rightarrow>
          (case rstep f jobId d pc w of (pc', w') \<Rightarrow> (DiagramRun jobId d pc', w')))"

definition fresh_run :: "proc \<Rightarrow> bool" where
  "fresh_run p =
     (case p of DesignRun _ _ _ pc \<Rightarrow> pc = D_Start | DiagramRun _ _ pc \<Rightarrow> pc = R_Start)"

inductive sys_step :: "(DetailLevel \<Rightarrow> string) \<Rightarrow> system \<Rightarrow> system \<Rightarrow> bool"
  for body :: "DetailLevel \<Rightarrow> string" where
  deliver: "fresh_run p \<Longrightarrow> sys_step body s (s\<lparr>running := running s @ [p]\<rparr>)"
| advance: "i < length (running s) \<Longrightarrow> proc_step body f (running s ! i) (store s) = (p', w')
            \<Longrightarrow> sys_step body s \<lparr>store = w', running = (running s)[i := p']\<rparr>"

text \<open>
  A schedule, run: \<open>Deliver p\<close> starts the execution \<open>p\<close>, \<open>Advance i f\<close> advances
  execution \<open>i\<close> with the verdict \<open>f\<close>.
\<close>

datatype event = Deliver proc | Advance nat "thrown option"

fun sys_exec :: "(DetailLevel \<Rightarrow> string) \<Rightarrow> event list \<Rightarrow> system \<Rightarrow> system" where
  "sys_exec body [] s = s"
| "sys_exec body (Deliver p # es) s =
     (if fresh_run p then sys_exec body es (s\<lparr>running := running s @ [p]\<rparr>)
      else sys_exec body es s)"
| "sys_exec body (Advance i f # es) s =
     (if i < length (running s) then
        (case proc_step body f (running s ! i) (store s) of
           (p', w') \<Rightarrow> sys_exec body es \<lparr>store = w', running = (running s)[i := p']\<rparr>)
      else sys_exec body es s)"

text \<open>Eviction of a job's status hash (its expiry, or the cache losing its memory).\<close>

definition evict :: "ident \<Rightarrow> world \<Rightarrow> world" where
  "evict jobId w = w\<lparr>cache := (cache w)(jobId := None)\<rparr>"

section \<open>A small installation, for evaluating the definitions\<close>

definition ex_request :: DesignRequest where
  "ex_request =
     \<lparr>rq_id = 1, rq_userId = 7, rq_project = 2, rq_inputType = PROMPT,
      rq_promptText = Some ''Build a chat app'', rq_repoUrl = None,
      rq_constraints = \<lparr>mustUse = None, avoid = None, preferredLanguage = None\<rparr>,
      rq_scaleProfile = DAU_1K, rq_detailLevel = STANDARD\<rparr>"

definition ex_data :: GenerateDesignJobData where
  "ex_data =
     \<lparr>inputType = PROMPT, promptText = Some ''Build a chat app'', repoUrl = None,
      constraints = \<lparr>mustUse = None, avoid = None, preferredLanguage = None\<rparr>,
      scaleProfile = DAU_1K, detailLevel = Some STANDARD, suggestions = Some [],
      existingDesign = None, refinementPrompt = None, designRequestId = 1\<rparr>"

definition ex_render :: RenderDiagramJobData where
  "ex_render = \<lparr>renderRequestId = 1, renderSource = ''graph TD''\<rparr>"

definition ex_job :: "ident \<Rightarrow> JobType \<Rightarrow> Metadata \<Rightarrow> Job" where
  "ex_job i t m =
     \<lparr>job_id = i, job_type = t, job_status = PENDING, job_progress = 0, job_request = 1,
      job_metadata = m, job_error = None, job_startedAt = None, job_completedAt = None\<rparr>"

text \<open>
  One user (7), one project (2), one request (1) and three queued jobs: two design
  generations (10, 11) and a diagram re-rendering (12). No version exists yet.
\<close>

definition ex_world :: world where
  "ex_world =
     \<lparr>jobs = [ex_job 10 GENERATE_DESIGN (DesignJob ex_data),
              ex_job 11 GENERATE_DESIGN (DesignJob ex_data),
              ex_job 12 RENDER_DIAGRAM (DiagramJob ex_render)],
      projects = [\<lparr>project_id = 2, isTemplate = False\<rparr>],
      design_requests = [ex_request],
      design_versions = [],
      diagram_versions = [],
      designQueue = [],
      diagramQueue = [],
      cache = (\<lambda>_. None),
      cache_log = [],
      next_id = 100,
      clock = 5\<rparr>"

definition ex_system :: system where
  "ex_system = \<lparr>store = ex_world, running = []\<rparr>"

text \<open>A provider answer with a design of three empty arrays and a one-line diagram.\<close>

definition ex_partial_design :: json where
  "ex_partial_design = JObj [(''components'', JArr []), (''dataStores'', JArr []), (''apis'', JArr [])]"

definition ex_response :: response where
  "ex_response = Parsed (Some ex_partial_design) (Some ''graph TD'')"

definition ex_body :: "DetailLevel \<Rightarrow> string" where
  "ex_body level = []"

section \<open>Predicates used in the statements\<close>

fun d_render_result :: "dpc \<Rightarrow> RenderResult option" where
  "d_render_result (D_FindDiagram _ rr) = Some rr"
| "d_render_result (D_CreateDiagram _ rr _) = Some rr"
| "d_render_result _ = None"

fun r_render_result :: "rpc \<Rightarrow> RenderResult option" where
  "r_render_result (R_Find rr) = Some rr"
| "r_render_result (R_Create rr _) = Some rr"
| "r_render_result _ = None"

definition svg_null :: "RenderResult option \<Rightarrow> bool" where
  "svg_null x = (case x of None \<Rightarrow> True | Some rr \<Rightarrow> svgContent rr = None)"

definition run_svg_ok :: "proc \<Rightarrow> bool" where
  "run_svg_ok p = (case p of DesignRun _ _ _ pc \<Rightarrow> svg_null (d_render_result pc)
                    | DiagramRun _ _ pc \<Rightarrow> svg_null (r_render_result pc))"

definition adds_null_svg :: "world \<Rightarrow> world \<Rightarrow> bool" where
  "adds_null_svg w w' = (\<exists>new. diagram_versions w' = diagram_versions w @ new \<and> list_all (\<lambda>v. gv_svg v = None) new)"

definition queue_refs_jobs :: "world \<Rightarrow> bool" where
  "queue_refs_jobs w =
     list_all (\<lambda>entry. list_ex (\<lambda>j. job_id j = fst entry) (jobs w)) (designQueue w)"

definition pending_job :: "ident \<Rightarrow> GenerateDesignJobData \<Rightarrow> Job" where
  "pending_job i data =
     \<lparr>job_id = i, job_type = GENERATE_DESIGN, job_status = PENDING, job_progress = 0,
      job_request = designRequestId data, job_metadata = DesignJob data, job_error = None,
      job_startedAt = None, job_completedAt = None\<rparr>"

definition no_fault :: "enqueue_env" where
  "no_fault = \<lparr>on_create = None, on_add = None, on_hset = None, on_expire = None\<rparr>"

definition ex_refine :: refine_input where
  "ex_refine = \<lparr>ri_designRequestId = 1, ri_refinementPrompt = ''Add a cache'',
                 ri_detailLevel = None, ri_suggestions = []\<rparr>"

definition gapless :: "ident \<Rightarrow> world \<Rightarrow> bool" where
  "gapless r w =
     (map dv_version (designVersions_of r w) = [1..int (length (designVersions_of r w))])"

fun d_next_version :: "dpc \<Rightarrow> int option" where
  "d_next_version (D_Saving _ v) = Some v"
| "d_next_version (D_CreateDesign _ v) = Some v"
| "d_next_version _ = None"

definition version_in_range :: "ident \<Rightarrow> world \<Rightarrow> int option \<Rightarrow> bool" where
  "version_in_range r w x =
     (case x of None \<Rightarrow> True
      | Some v \<Rightarrow> 1 \<le> v \<and> v \<le> int (length (designVersions_of r w)) + 1)"

definition run_version_ok :: "world \<Rightarrow> proc \<Rightarrow> bool" where
  "run_version_ok w p =
     (case p of
        DesignRun _ d _ pc \<Rightarrow> version_in_range (designRequestId d) w (d_next_version pc)
      | DiagramRun _ _ _ \<Rightarrow> True)"

text \<open>What a step may do to the DesignVersion table: nothing, or one row appended whose
  version is the greatest version of its request at that moment plus one.\<close>

definition allocates :: "world \<Rightarrow> world \<Rightarrow> bool" where
  "allocates w w' =
     (design_versions w' = design_versions w
      \<or> (\<exists>row. design_versions w' = design_versions w @ [row]
            \<and> dv_version row
                = next_version (map_option dv_version (designVersion_findFirst (dv_request row) w))))"

text \<open>
  Counting. A step of the execution \<open>p\<close> with the verdict \<open>f\<close> is a successful
  \<open>db.designVersion.create\<close> for the request \<open>q\<close> (line 107) when \<open>p\<close> is a design
  execution for \<open>q\<close> at that call, the environment lets the call through and the table
  accepts the row. \<open>successful_inserts\<close> counts these steps along a schedule.
\<close>

fun insert_succeeds :: "ident \<Rightarrow> thrown option \<Rightarrow> proc \<Rightarrow> world \<Rightarrow> bool" where
  "insert_succeeds q None (DesignRun jobId d r (D_CreateDesign result nextVersion)) w =
     (designRequestId d = q
      \<and> (case designVersion_create (designRequestId d) nextVersion (design result) w of
           Inl e \<Rightarrow> False | Inr x \<Rightarrow> True))"
| "insert_succeeds q f p w = False"

fun successful_inserts :: "(DetailLevel \<Rightarrow> string) \<Rightarrow> ident \<Rightarrow> event list \<Rightarrow> system \<Rightarrow> nat" where
  "successful_inserts body q [] s = 0"
| "successful_inserts body q (Deliver p # es) s =
     successful_inserts body q es (sys_exec body [Deliver p] s)"
| "successful_inserts body q (Advance i f # es) s =
     (if i < length (running s) \<and> insert_succeeds q f (running s ! i) (store s) then 1 else 0)
     + successful_inserts body q es (sys_exec body [Advance i f] s)"

text \<open>The control points of the \<open>try\<close> block after the DesignVersion was inserted.\<close>

fun d_inserted :: "dpc \<Rightarrow> bool" where
  "d_inserted (D_Rendering _ _) = True"
| "d_inserted (D_Render _ _) = True"
| "d_inserted (D_FindDiagram _ _) = True"
| "d_inserted (D_CreateDiagram _ _ _) = True"
| "d_inserted (D_Complete _) = True"
| "d_inserted (D_JobCompleted _) = True"
| "d_inserted (D_Quit _) = True"
| "d_inserted (D_Returned _) = True"
| "d_inserted _ = False"

fun holds_version :: "ident \<Rightarrow> proc \<Rightarrow> bool" where
  "holds_version q (DesignRun jobId d r pc) = (designRequestId d = q \<and> d_inserted pc)"
| "holds_version q (DiagramRun jobId d pc) = False"

text \<open>
  The successful generations and refinements for a request: the executions of the design
  handler for it that have reached their \<open>return\<close> (line 152).
\<close>

fun has_returned :: "ident \<Rightarrow> proc \<Rightarrow> bool" where
  "has_returned q (DesignRun jobId d r (D_Returned dv)) = (designRequestId d = q)"
| "has_returned q p = False"

definition successful_runs :: "ident \<Rightarrow> system \<Rightarrow> nat" where
  "successful_runs q s = length (filter (has_returned q) (running s))"

definition job_statuses :: "world \<Rightarrow> (ident \<times> JobStatus) list" where
  "job_statuses w = map (\<lambda>x. (job_id x, job_status x)) (jobs w)"

definition design_conflict :: "ident \<Rightarrow> int \<Rightarrow> world \<Rightarrow> bool" where
  "design_conflict r v w = list_ex (\<lambda>x. dv_request x = r \<and> dv_version x = v) (design_versions w)"

definition diagram_conflict :: "ident \<Rightarrow> int \<Rightarrow> world \<Rightarrow> bool" where
  "diagram_conflict r v w = list_ex (\<lambda>x. gv_request x = r \<and> gv_version x = v) (diagram_versions w)"

text \<open>
  Job \<open>j\<close> is marked failed with \<open>e\<close> in both stores of \<open>w'\<close>, and \<open>w'\<close> has the
  version tables of \<open>w\<close>.
\<close>

definition failed_and_unchanged :: "ident \<Rightarrow> thrown \<Rightarrow> world \<Rightarrow> world \<Rightarrow> bool" where
  "failed_and_unchanged j e w w' =
     (map_option (\<lambda>s. (st_status s, st_progress s, st_message s)) (cache w' j)
        = Some (FAILED, 0, errorMessage e)
      \<and> list_all (\<lambda>x. job_status x = FAILED \<and> job_error x = Some (errorMessage e))
           (filter (\<lambda>x. job_id x = j) (jobs w'))
      \<and> list_ex (\<lambda>x. job_id x = j) (jobs w')
      \<and> design_versions w' = design_versions w
      \<and> diagram_versions w' = diagram_versions w)"

text \<open>The status writes of an execution of each handler that runs to its \<open>return\<close>.\<close>

definition d_full :: "ident \<Rightarrow> (ident \<times> JobStatus \<times> int) list" where
  "d_full j = [(j, PROCESSING, 10), (j, PROCESSING, 30), (j, PROCESSING, 50),
               (j, PROCESSING, 70), (j, PROCESSING, 85), (j, COMPLETED, 100)]"

definition r_full :: "ident \<Rightarrow> (ident \<times> JobStatus \<times> int) list" where
  "r_full j = [(j, PROCESSING, 50), (j, COMPLETED, 100)]"

text \<open>How many status writes of its \<open>try\<close> block an execution has behind it at a control
  point of the block.\<close>

fun d_written :: "dpc \<Rightarrow> nat option" where
  "d_written D_Start = Some 0"
| "d_written D_JobProcessing = Some 1"
| "d_written D_Analyze = Some 1"
| "d_written D_Generating = Some 2"
| "d_written D_Generate = Some 3"
| "d_written (D_FindDesign _) = Some 3"
| "d_written (D_Saving _ _) = Some 3"
| "d_written (D_CreateDesign _ _) = Some 4"
| "d_written (D_Rendering _ _) = Some 4"
| "d_written (D_Render _ _) = Some 5"
| "d_written (D_FindDiagram _ _) = Some 5"
| "d_written (D_CreateDiagram _ _ _) = Some 5"
| "d_written (D_Complete _) = Some 5"
| "d_written (D_JobCompleted _) = Some 6"
| "d_written (D_Quit _) = Some 6"
| "d_written (D_Returned _) = Some 6"
| "d_written _ = None"

fun r_written :: "rpc \<Rightarrow> nat option" where
  "r_written R_Start = Some 0"
| "r_written R_JobProcessing = Some 1"
| "r_written R_Render = Some 1"
| "r_written (R_Find _) = Some 1"
| "r_written (R_Create _ _) = Some 1"
| "r_written R_Complete = Some 1"
| "r_written R_JobCompleted = Some 2"
| "r_written R_Quit = Some 2"
| "r_written R_Returned = Some 2"
| "r_written _ = None"

text \<open>The status writes of the \<open>catch\<close> block that an execution may have behind it.\<close>

fun d_tails :: "ident \<Rightarrow> dpc \<Rightarrow> (ident \<times> JobStatus \<times> int) list list" where
  "d_tails j (D_CatchJob _) = [[(j, FAILED, 0)]]"
| "d_tails j (D_CatchQuit _) = [[(j, FAILED, 0)]]"
| "d_tails j (D_Thrown _) = [[(j, FAILED, 0)]]"
| "d_tails j (D_Escaped _) = [[], [(j, FAILED, 0)]]"
| "d_tails j _ = [[]]"

fun r_tails :: "ident \<Rightarrow> rpc \<Rightarrow> (ident \<times> JobStatus \<times> int) list list" where
  "r_tails j (R_CatchJob _) = [[(j, FAILED, 0)]]"
| "r_tails j (R_CatchQuit _) = [[(j, FAILED, 0)]]"
| "r_tails j (R_Thrown _) = [[(j, FAILED, 0)]]"
| "r_tails j (R_Escaped _) = [[], [(j, FAILED, 0)]]"
| "r_tails j _ = [[]]"

definition d_trace_ok :: "ident \<Rightarrow> dpc \<Rightarrow> (ident \<times> JobStatus \<times> int) list \<Rightarrow> bool" where
  "d_trace_ok j pc t =
     (\<exists>n tl. n \<le> 6 \<and> (d_written pc = None \<or> d_written pc = Some n)
        \<and> tl \<in> set (d_tails j pc) \<and> t = take n (d_full j) @ tl)"

definition r_trace_ok :: "ident \<Rightarrow> rpc \<Rightarrow> (ident \<times> JobStatus \<times> int) list \<Rightarrow> bool" where
  "r_trace_ok j pc t =
     (\<exists>n tl. n \<le> 2 \<and> (r_written pc = None \<or> r_written pc = Some n)
        \<and> tl \<in> set (r_tails j pc) \<and> t = take n (r_full j) @ tl)"

text \<open>A bound on the steps an execution has left.\<close>

fun d_rank :: "dpc \<Rightarrow> nat" where
  "d_rank D_Start = 18"
| "d_rank D_JobProcessing = 17"
| "d_rank D_Analyze = 16"
| "d_rank D_Generating = 15"
| "d_rank D_Generate = 14"
| "d_rank (D_FindDesign _) = 13"
| "d_rank (D_Saving _ _) = 12"
| "d_rank (D_CreateDesign _ _) = 11"
| "d_rank (D_Rendering _ _) = 10"
| "d_rank (D_Render _ _) = 9"
| "d_rank (D_FindDiagram _ _) = 8"
| "d_rank (D_CreateDiagram _ _ _) = 7"
| "d_rank (D_Complete _) = 6"
| "d_rank (D_JobCompleted _) = 5"
| "d_rank (D_Quit _) = 4"
| "d_rank (D_Catch _) = 3"
| "d_rank (D_CatchJob _) = 2"
| "d_rank (D_CatchQuit _) = 1"
| "d_rank _ = 0"

fun r_rank :: "rpc \<Rightarrow> nat" where
  "r_rank R_Start = 11"
| "r_rank R_JobProcessing = 10"
| "r_rank R_Render = 9"
| "r_rank (R_Find _) = 8"
| "r_rank (R_Create _ _) = 7"
| "r_rank R_Complete = 6"
| "r_rank R_JobCompleted = 5"
| "r_rank R_Quit = 4"
| "r_rank (R_Catch _) = 3"
| "r_rank (R_CatchJob _) = 2"
| "r_rank (R_CatchQuit _) = 1"
| "r_rank _ = 0"

text \<open>The small installation after version 1 of the design and of the diagram was stored.\<close>

definition ex_world_v1 :: world where
  "ex_world_v1 =
     ex_world
       \<lparr>design_versions :=
          [\<lparr>dv_id = 100, dv_version = 1, dv_request = 1, dv_data = ex_partial_design\<rparr>],
        diagram_versions :=
          [\<lparr>gv_id = 101, gv_version = 1, gv_request = 1, gv_designVersion = Some 100,
            gv_source = ''graph TD'', gv_svg = None\<rparr>],
        next_id := 102\<rparr>"

definition ex_generated :: GeneratedDesign where
  "ex_generated = \<lparr>design = ex_partial_design, mermaidDiagram = ''graph TD''\<rparr>"

text \<open>
  Two executions for request 1, jobs 10 and 11, side by side: both read the greatest
  version before either inserts; execution 1 (job 11) then runs to its end, and
  execution 0 (job 10) goes on to its own insert and to the end of its handler.
\<close>

definition race_schedule :: "event list" where
  "race_schedule =
     [Deliver (DesignRun 10 ex_data ex_response D_Start),
      Deliver (DesignRun 11 ex_data ex_response D_Start),
      Advance 0 None, Advance 0 None, Advance 0 None, Advance 0 None, Advance 0 None, Advance 0 None,
      Advance 1 None, Advance 1 None, Advance 1 None, Advance 1 None, Advance 1 None, Advance 1 None,
      Advance 1 None, Advance 1 None, Advance 1 None, Advance 1 None, Advance 1 None, Advance 1 None, Advance 1 None, Advance 1 None, Advance 1 None,
      Advance 0 None, Advance 0 None, Advance 0 None, Advance 0 None, Advance 0 None]"

text \<open>
  The same two executions in another interleaving, again with no call failing: execution 0
  (job 10) inserts its DesignVersion and reads the greatest diagram version; execution 1
  (job 11) then runs to its end; execution 0 goes on to its DiagramVersion insert and to
  the end of its handler.
\<close>

definition diagram_race_schedule :: "event list" where
  "diagram_race_schedule =
     [Deliver (DesignRun 10 ex_data ex_response D_Start),
      Deliver (DesignRun 11 ex_data ex_response D_Start),
      Advance 0 None, Advance 0 None, Advance 0 None, Advance 0 None, Advance 0 None, Advance 0 None,
      Advance 0 None, Advance 0 None, Advance 0 None, Advance 0 None, Advance 0 None,
      Advance 1 None, Advance 1 None, Advance 1 None, Advance 1 None, Advance 1 None, Advance 1 None,
      Advance 1 None, Advance 1 None, Advance 1 None, Advance 1 None, Advance 1 None, Advance 1 None,
      Advance 1 None, Advance 1 None, Advance 1 None,
      Advance 0 None, Advance 0 None, Advance 0 None, Advance 0 None]"

text \<open>The queue delivers job 10 once more, and that execution runs alone to its end.\<close>

definition retry_schedule :: "event list" where
  "retry_schedule =
     [Deliver (DesignRun 10 ex_data ex_response D_Start),
      Advance 2 None, Advance 2 None, Advance 2 None, Advance 2 None, Advance 2 None, Advance 2 None, Advance 2 None, Advance 2 None, Advance 2 None, Advance 2 None, Advance 2 None, Advance 2 None, Advance 2 None, Advance 2 None, Advance 2 None]"

text \<open>
  An environment in which the eighth awaited call of an execution, for the design handler
  \<open>db.designVersion.create\<close>, fails with a lost connection; and one in which no call
  fails.
\<close>

definition ex_faults :: "thrown option list" where
  "ex_faults = [None, None, None, None, None, None, None, Some (Error ''Connection lost''),
                None, None, None, None, None, None, None, None, None, None]"

definition ex_no_faults :: "thrown option list" where
  "ex_no_faults = [None, None, None, None, None, None, None, None, None,
                   None, None, None, None, None, None, None, None, None]"

text \<open>
  Environments in which only the \<open>db.job.update\<close> that records COMPLETED fails, with a lost
  connection: the fourteenth awaited call of the design handler (line 140), the seventh of
  the diagram handler (line 214).
\<close>

definition ex_design_update_fails :: "thrown option list" where
  "ex_design_update_fails =
     [None, None, None, None, None, None, None, None, None, None, None, None, None,
      Some (Error ''Connection lost''), None, None, None, None]"

definition ex_diagram_update_fails :: "thrown option list" where
  "ex_diagram_update_fails =
     [None, None, None, None, None, None, Some (Error ''Connection lost''),
      None, None, None, None]"
section \<open>Properties\<close>

lemma render_svg_null: "svgContent (renderMermaidToSvg source) = None"
  by (simp add: renderMermaidToSvg_def)

lemma updateJobStatus_diagram [simp]: "diagram_versions (updateJobStatus j st p m w) = diagram_versions w"
  by (simp add: updateJobStatus_def)

lemma job_update_diagram: "job_update j g w = Inr w' \<Longrightarrow> diagram_versions w' = diagram_versions w"
  by (auto simp: job_update_def split: if_splits)

lemma dstep_svg:
  assumes "svg_null (d_render_result pc)" "dstep body f r j d pc w = (pc', w')"
  shows "svg_null (d_render_result pc') \<and> adds_null_svg w w'"
  using assms
  by (cases pc)
     (auto simp: svg_null_def adds_null_svg_def render_svg_null designVersion_create_def
        diagramVersion_create_def Let_def
        dest: job_update_diagram split: option.splits sum.splits if_splits)

lemma rstep_svg:
  assumes "svg_null (r_render_result pc)" "rstep f j d pc w = (pc', w')"
  shows "svg_null (r_render_result pc') \<and> adds_null_svg w w'"
  using assms
  by (cases pc)
     (auto simp: svg_null_def adds_null_svg_def render_svg_null
        diagramVersion_create_def Let_def
        dest: job_update_diagram split: option.splits sum.splits if_splits)

lemma proc_step_svg:
  assumes "run_svg_ok p" "proc_step body f p w = (p', w')"
  shows "run_svg_ok p' \<and> adds_null_svg w w'"
proof (cases p)
  case (DesignRun j d r pc)
  obtain pc' w2 where st: "dstep body f r j d pc w = (pc', w2)" by (cases "dstep body f r j d pc w")
  with assms DesignRun have "p' = DesignRun j d r pc'" "w' = w2" by (auto simp: proc_step_def)
  moreover from assms DesignRun have "svg_null (d_render_result pc)" by (simp add: run_svg_ok_def)
  ultimately show ?thesis using dstep_svg[OF _ st] by (simp add: run_svg_ok_def)
next
  case (DiagramRun j d pc)
  obtain pc' w2 where st: "rstep f j d pc w = (pc', w2)" by (cases "rstep f j d pc w")
  with assms DiagramRun have "p' = DiagramRun j d pc'" "w' = w2" by (auto simp: proc_step_def)
  moreover from assms DiagramRun have "svg_null (r_render_result pc)" by (simp add: run_svg_ok_def)
  ultimately show ?thesis using rstep_svg[OF _ st] by (simp add: run_svg_ok_def)
qed

lemma adds_null_svg_refl: "adds_null_svg w w"
  by (simp add: adds_null_svg_def)

lemma adds_null_svg_trans: "adds_null_svg a b \<Longrightarrow> adds_null_svg b c \<Longrightarrow> adds_null_svg a c"
  by (auto simp: adds_null_svg_def)

lemma fresh_run_svg: "fresh_run p \<Longrightarrow> run_svg_ok p"
  by (cases p) (auto simp: fresh_run_def run_svg_ok_def svg_null_def)

lemma sys_step_svg:
  assumes "sys_step body s s'" "list_all run_svg_ok (running s)"
  shows "list_all run_svg_ok (running s') \<and> adds_null_svg (store s) (store s')"
  using assms
proof (cases rule: sys_step.cases)
  case (deliver p)
  then show ?thesis using assms(2) by (simp add: fresh_run_svg adds_null_svg_refl)
next
  case (advance i f p' w')
  from assms(2) advance(2) have "run_svg_ok (running s ! i)" by (simp add: list_all_length)
  from proc_step_svg[OF this advance(3)] have ok: "run_svg_ok p'" "adds_null_svg (store s) w'" by auto
  have "list_all run_svg_ok ((running s)[i := p'])"
    using assms(2) ok(1) by (auto simp: list_all_iff dest: set_update_subset_insert[THEN subsetD])
  with ok(2) advance(1) show ?thesis by simp
qed

lemma sys_steps_svg:
  assumes "(sys_step body)\<^sup>*\<^sup>* s0 s" "list_all run_svg_ok (running s0)"
  shows "list_all run_svg_ok (running s) \<and> adds_null_svg (store s0) (store s)"
  using assms
proof (induction rule: rtranclp_induct)
  case base
  then show ?case by (simp add: adds_null_svg_refl)
next
  case (step y z)
  then show ?case using sys_step_svg[OF step(2)] adds_null_svg_trans by blast
qed

lemma sys_exec_steps: "(sys_step body)\<^sup>*\<^sup>* s (sys_exec body es s)"
proof (induction body es s rule: sys_exec.induct)
  case (1 body s)
  then show ?case by simp
next
  case (2 body p es s)
  show ?case
  proof (cases "fresh_run p")
    case True
    have "sys_step body s (s\<lparr>running := running s @ [p]\<rparr>)" using True by (rule sys_step.deliver)
    with 2 True show ?thesis by (simp add: converse_rtranclp_into_rtranclp)
  next
    case False
    with 2 show ?thesis by simp
  qed
next
  case (3 body i f es s)
  show ?case
  proof (cases "i < length (running s)")
    case True
    obtain p' w' where st: "proc_step body f (running s ! i) (store s) = (p', w')"
      by (cases "proc_step body f (running s ! i) (store s)")
    have "sys_step body s \<lparr>store = w', running = (running s)[i := p']\<rparr>"
      using True st by (rule sys_step.advance)
    with 3(1)[OF True st[symmetric]] True st show ?thesis
      by (simp add: converse_rtranclp_into_rtranclp)
  next
    case False
    with 3 show ?thesis by simp
  qed
qed

lemmas ex_defs = ex_system_def ex_world_def ex_job_def ex_render_def ex_data_def ex_request_def
  ex_response_def ex_partial_design_def ex_body_def ex_world_v1_def ex_generated_def
  ex_faults_def ex_no_faults_def

lemmas render_defs = renderMermaidToSvg_def hasValidType_def validTypes_def
  trim_def is_ws_def first_line_def toLowerCase_def lower_char_def startsWith_def

lemmas gen_defs = generateDesign_def generateDesign_try_def truthy_def property_def
  length_readable_def worker_input_def or_list_def addDefaultStyles_def is_word_def
  node_style_def nl_def isRefinement_def

lemmas store_defs = updateJobStatus_def job_update_def designVersion_create_def
  diagramVersion_create_def designVersion_findFirst_def diagramVersion_findFirst_def
  designVersions_of_def diagramVersions_of_def next_version_def request_exists_def
  proc_step_def fresh_run_def errorMessage_def Let_def

subsection \<open>C1: version numbers are gapless\<close>

lemma max_row_None: "(max_row ver xs = None) = (xs = [])"
  by (induction xs) (auto split: option.splits)

lemma max_row_Some:
  "max_row ver xs = Some y \<Longrightarrow> y \<in> set xs \<and> (\<forall>x\<in>set xs. ver x \<le> ver y)"
proof (induction xs arbitrary: y)
  case Nil
  then show ?case by simp
next
  case (Cons a xs)
  show ?case
  proof (cases "max_row ver xs")
    case None
    then have "xs = []" by (simp add: max_row_None)
    with Cons.prems show ?thesis by simp
  next
    case (Some z)
    from Cons.IH[OF Some] have z: "z \<in> set xs" "\<forall>x\<in>set xs. ver x \<le> ver z" by auto
    from Cons.prems Some have "y = (if ver a < ver z then z else a)" by (simp split: if_splits)
    with z show ?thesis by (auto intro: order_trans)
  qed
qed

lemma gapless_next:
  assumes "gapless r w"
  shows "next_version (map_option dv_version (designVersion_findFirst r w))
         = int (length (designVersions_of r w)) + 1"
proof (cases "designVersions_of r w = []")
  case True
  then show ?thesis by (simp add: designVersion_findFirst_def next_version_def)
next
  case False
  let ?xs = "designVersions_of r w"
  let ?n = "int (length ?xs)"
  from False obtain y where y: "max_row dv_version ?xs = Some y"
    using max_row_None[of dv_version ?xs] by (cases "max_row dv_version ?xs") auto
  from max_row_Some[OF y] have yin: "y \<in> set ?xs" and ymax: "\<forall>x\<in>set ?xs. dv_version x \<le> dv_version y"
    by auto
  from assms have vs: "set (map dv_version ?xs) = set [1..?n]" by (simp add: gapless_def)
  from False have "1 \<le> ?n" by (cases ?xs) auto
  then have "?n \<in> set (map dv_version ?xs)" using vs by simp
  then obtain x where "x \<in> set ?xs" "dv_version x = ?n" by auto
  with ymax have "?n \<le> dv_version y" by auto
  moreover from yin vs have "dv_version y \<in> set [1..?n]" by auto
  ultimately have "dv_version y = ?n" by simp
  with y \<open>1 \<le> ?n\<close> show ?thesis
    by (simp add: designVersion_findFirst_def next_version_def)
qed

lemma gapless_append:
  assumes "gapless r w" "design_versions w' = design_versions w @ [row]"
    "dv_request row = r'" "r' = r \<longrightarrow> dv_version row = int (length (designVersions_of r w)) + 1"
  shows "gapless r w'"
proof (cases "r' = r")
  case True
  let ?n = "int (length (designVersions_of r w))"
  from True assms have app: "designVersions_of r w' = designVersions_of r w @ [row]"
    by (simp add: designVersions_of_def)
  have up: "[1..?n + 1] = [1..?n] @ [?n + 1]"
    by (simp add: upto_rec2)
  have "map dv_version (designVersions_of r w') = [1..?n] @ [?n + 1]"
    using app assms(1,4) True by (simp add: gapless_def)
  also have "\<dots> = [1..?n + 1]" using up by simp
  also have "?n + 1 = int (length (designVersions_of r w'))" using app by simp
  finally show ?thesis by (simp only: gapless_def)
next
  case False
  with assms have "designVersions_of r w' = designVersions_of r w"
    by (auto simp: designVersions_of_def)
  with assms show ?thesis by (simp add: gapless_def)
qed

lemma updateJobStatus_design [simp]:
  "design_versions (updateJobStatus j st p m w) = design_versions w"
  by (simp add: updateJobStatus_def)

lemma job_update_design: "job_update j g w = Inr w' \<Longrightarrow> design_versions w' = design_versions w"
  by (auto simp: job_update_def split: if_splits)

lemma dstep_versions:
  assumes "dstep body f r j d pc w = (pc', w')"
  shows "design_versions w' = design_versions w
       \<or> (\<exists>g v. pc = D_CreateDesign g v
            \<and> design_versions w' = design_versions w
                 @ [\<lparr>dv_id = next_id w, dv_version = v, dv_request = designRequestId d, dv_data = design g\<rparr>]
            \<and> \<not> list_ex (\<lambda>x. dv_request x = designRequestId d \<and> dv_version x = v) (design_versions w))"
  using assms
  by (cases pc)
     (auto simp: designVersion_create_def diagramVersion_create_def Let_def
        dest: job_update_design split: option.splits sum.splits if_splits)

lemma rstep_versions:
  assumes "rstep f j d pc w = (pc', w')"
  shows "design_versions w' = design_versions w"
  using assms
  by (cases pc)
     (auto simp: diagramVersion_create_def Let_def
        dest: job_update_design split: option.splits sum.splits if_splits)

lemma version_in_range_mono:
  assumes "version_in_range r w x" "design_versions w' = design_versions w @ new"
  shows "version_in_range r w' x"
  using assms by (auto simp: version_in_range_def designVersions_of_def split: option.splits)

lemma run_version_ok_mono:
  assumes "run_version_ok w p" "design_versions w' = design_versions w @ new"
  shows "run_version_ok w' p"
  using assms version_in_range_mono by (auto simp: run_version_ok_def split: proc.splits)

lemma dstep_next:
  assumes "dstep body f r j d pc w = (pc', w')" "gapless (designRequestId d) w"
    "version_in_range (designRequestId d) w (d_next_version pc)"
  shows "version_in_range (designRequestId d) w (d_next_version pc')"
  using assms
  by (cases pc)
     (auto simp: version_in_range_def gapless_next designVersion_create_def
        diagramVersion_create_def Let_def
        split: option.splits sum.splits if_splits)

lemma no_conflict_version:
  assumes "gapless r w" "1 \<le> v" "v \<le> int (length (designVersions_of r w)) + 1"
    "\<not> list_ex (\<lambda>x. dv_request x = r \<and> dv_version x = v) (design_versions w)"
  shows "v = int (length (designVersions_of r w)) + 1"
proof -
  from assms(4) have "v \<notin> set (map dv_version (designVersions_of r w))"
    by (auto simp: designVersions_of_def list_ex_iff)
  with assms(1) have "v \<notin> set [1..int (length (designVersions_of r w))]"
    by (simp add: gapless_def)
  with assms(2,3) show ?thesis by auto
qed

lemma dstep_alloc:
  assumes g: "\<forall>q. gapless q w"
    and v: "version_in_range (designRequestId d) w (d_next_version pc)"
    and st: "dstep body f r j d pc w = (pc', w')"
  shows "(\<forall>q. gapless q w') \<and> version_in_range (designRequestId d) w' (d_next_version pc')
         \<and> allocates w w' \<and> (\<exists>new. design_versions w' = design_versions w @ new)"
proof -
  from g have gr: "gapless (designRequestId d) w" by simp
  have nx: "version_in_range (designRequestId d) w (d_next_version pc')"
    using dstep_next[OF st gr v] .
  from dstep_versions[OF st] show ?thesis
  proof
    assume same: "design_versions w' = design_versions w"
    then have eq: "\<And>q. designVersions_of q w' = designVersions_of q w"
      by (simp add: designVersions_of_def)
    from same have "design_versions w' = design_versions w @ []" by simp
    from version_in_range_mono[OF nx this]
    have "version_in_range (designRequestId d) w' (d_next_version pc')" .
    moreover from g eq have "\<forall>q. gapless q w'" by (simp add: gapless_def)
    moreover from same have "allocates w w'" by (simp add: allocates_def)
    ultimately show ?thesis using same by simp
  next
    assume "\<exists>g v. pc = D_CreateDesign g v
            \<and> design_versions w' = design_versions w
                 @ [\<lparr>dv_id = next_id w, dv_version = v, dv_request = designRequestId d, dv_data = design g\<rparr>]
            \<and> \<not> list_ex (\<lambda>x. dv_request x = designRequestId d \<and> dv_version x = v) (design_versions w)"
    then obtain gd n where pc: "pc = D_CreateDesign gd n"
      and app: "design_versions w' = design_versions w
                 @ [\<lparr>dv_id = next_id w, dv_version = n, dv_request = designRequestId d, dv_data = design gd\<rparr>]"
      and nc: "\<not> list_ex (\<lambda>x. dv_request x = designRequestId d \<and> dv_version x = n) (design_versions w)"
      by blast
    let ?row = "\<lparr>dv_id = next_id w, dv_version = n, dv_request = designRequestId d, dv_data = design gd\<rparr>"
    from v pc have rng: "1 \<le> n" "n \<le> int (length (designVersions_of (designRequestId d) w)) + 1"
      by (simp_all add: version_in_range_def)
    from no_conflict_version[OF gr rng nc]
    have n: "n = int (length (designVersions_of (designRequestId d) w)) + 1" .
    have g': "\<forall>q. gapless q w'"
    proof
      fix q
      from g have gq: "gapless q w" by simp
      have rq: "dv_request ?row = designRequestId d" by simp
      have vq: "designRequestId d = q \<longrightarrow> dv_version ?row = int (length (designVersions_of q w)) + 1"
        using n by auto
      show "gapless q w'"
        using gapless_append[OF gq app rq vq] .
    qed
    have al: "allocates w w'"
      unfolding allocates_def using app n gapless_next[OF gr] by auto
    from version_in_range_mono[OF nx app]
    have "version_in_range (designRequestId d) w' (d_next_version pc')" .
    with g' al app show ?thesis by blast
  qed
qed

lemma proc_step_alloc:
  assumes "\<forall>q. gapless q w" "run_version_ok w p" "proc_step body f p w = (p', w')"
  shows "(\<forall>q. gapless q w') \<and> run_version_ok w' p'
         \<and> allocates w w' \<and> (\<exists>new. design_versions w' = design_versions w @ new)"
proof (cases p)
  case (DesignRun j d r pc)
  obtain pc' w2 where st: "dstep body f r j d pc w = (pc', w2)" by (cases "dstep body f r j d pc w")
  with assms DesignRun have eq: "p' = DesignRun j d r pc'" "w' = w2" by (auto simp: proc_step_def)
  from assms DesignRun have "version_in_range (designRequestId d) w (d_next_version pc)"
    by (simp add: run_version_ok_def)
  from dstep_alloc[OF assms(1) this st] eq show ?thesis by (simp add: run_version_ok_def)
next
  case (DiagramRun j d pc)
  obtain pc' w2 where st: "rstep f j d pc w = (pc', w2)" by (cases "rstep f j d pc w")
  with assms DiagramRun have eq: "p' = DiagramRun j d pc'" "w' = w2" by (auto simp: proc_step_def)
  from rstep_versions[OF st] have same: "design_versions w2 = design_versions w" .
  then have "\<And>q. designVersions_of q w2 = designVersions_of q w"
    by (simp add: designVersions_of_def)
  with assms(1) same eq show ?thesis
    by (simp add: gapless_def run_version_ok_def allocates_def)
qed

lemma sys_step_alloc:
  assumes "sys_step body s s'" "\<forall>q. gapless q (store s)"
    "list_all (run_version_ok (store s)) (running s)"
  shows "(\<forall>q. gapless q (store s')) \<and> list_all (run_version_ok (store s')) (running s')
         \<and> allocates (store s) (store s')"
  using assms(1)
proof (cases rule: sys_step.cases)
  case (deliver p)
  have "run_version_ok (store s) p"
    using deliver(2) by (cases p) (auto simp: fresh_run_def run_version_ok_def version_in_range_def)
  with deliver assms show ?thesis by (simp add: allocates_def)
next
  case (advance i f p' w')
  from assms(3) advance(2) have "run_version_ok (store s) (running s ! i)"
    by (simp add: list_all_length)
  from proc_step_alloc[OF assms(2) this advance(3)]
  obtain new where g: "\<forall>q. gapless q w'" and ok: "run_version_ok w' p'"
    and al: "allocates (store s) w'" and app: "design_versions w' = design_versions (store s) @ new"
    by blast
  have "list_all (run_version_ok w') (running s)"
    using assms(3) run_version_ok_mono[OF _ app] by (auto simp: list_all_iff)
  with ok have "list_all (run_version_ok w') ((running s)[i := p'])"
    by (auto simp: list_all_iff dest: set_update_subset_insert[THEN subsetD])
  with g al advance(1) show ?thesis by simp
qed

lemma sys_steps_gapless:
  assumes "(sys_step body)\<^sup>*\<^sup>* s0 s" "\<forall>q. gapless q (store s0)"
    "list_all (run_version_ok (store s0)) (running s0)"
  shows "(\<forall>q. gapless q (store s)) \<and> list_all (run_version_ok (store s)) (running s)"
  using assms
proof (induction rule: rtranclp_induct)
  case base
  then show ?case by simp
next
  case (step y z)
  then show ?case using sys_step_alloc[OF step(2)] by blast
qed

lemma sys_exec_append: "sys_exec body (es @ es') s = sys_exec body es' (sys_exec body es s)"
  by (induction body es s rule: sys_exec.induct) (auto split: prod.splits)

lemma sys_step_exec:
  assumes "sys_step body s s'"
  shows "\<exists>e. s' = sys_exec body [e] s"
  using assms
proof (cases rule: sys_step.cases)
  case (deliver p)
  then have "s' = sys_exec body [Deliver p] s" by simp
  then show ?thesis by blast
next
  case (advance i f p' w')
  then have "s' = sys_exec body [Advance i f] s" by simp
  then show ?thesis by blast
qed

lemma sys_steps_exec: "(sys_step body)\<^sup>*\<^sup>* s0 s \<Longrightarrow> \<exists>es. s = sys_exec body es s0"
proof (induction rule: rtranclp_induct)
  case base
  have "s0 = sys_exec body [] s0" by simp
  then show ?case by blast
next
  case (step y z)
  then obtain es where es: "y = sys_exec body es s0" by blast
  from sys_step_exec[OF step(2)] obtain e where "z = sys_exec body [e] y" by blast
  with es have "z = sys_exec body (es @ [e]) s0" by (simp add: sys_exec_append)
  then show ?case by blast
qed

lemma dstep_inserts:
  assumes "dstep body f r j d pc w = (pc', w')"
  shows "length (designVersions_of q w')
         = length (designVersions_of q w)
           + (if insert_succeeds q f (DesignRun j d r pc) w then 1 else 0)"
  using assms
  by (cases pc; cases f)
     (auto simp: designVersion_create_def diagramVersion_create_def Let_def designVersions_of_def
        dest: job_update_design split: option.splits sum.splits if_splits)

lemma proc_step_inserts:
  assumes "proc_step body f p w = (p', w')"
  shows "length (designVersions_of q w')
         = length (designVersions_of q w) + (if insert_succeeds q f p w then 1 else 0)"
proof (cases p)
  case (DesignRun j d r pc)
  obtain pc' w2 where st: "dstep body f r j d pc w = (pc', w2)" by (cases "dstep body f r j d pc w")
  with assms DesignRun have "w' = w2" by (auto simp: proc_step_def)
  with dstep_inserts[OF st] DesignRun show ?thesis by simp
next
  case (DiagramRun j d pc)
  obtain pc' w2 where st: "rstep f j d pc w = (pc', w2)" by (cases "rstep f j d pc w")
  with assms DiagramRun have "w' = w2" by (auto simp: proc_step_def)
  with rstep_versions[OF st] DiagramRun show ?thesis by (simp add: designVersions_of_def)
qed

lemma inserts_length:
  "length (designVersions_of q (store (sys_exec body es s)))
   = length (designVersions_of q (store s)) + successful_inserts body q es s"
proof (induction body es s rule: sys_exec.induct)
  case (1 body s)
  then show ?case by simp
next
  case (2 body p es s)
  then show ?case by simp
next
  case (3 body i f es s)
  show ?case
  proof (cases "i < length (running s)")
    case True
    obtain p' w' where st: "proc_step body f (running s ! i) (store s) = (p', w')"
      by (cases "proc_step body f (running s ! i) (store s)")
    from 3(1)[OF True st[symmetric]] proc_step_inserts[OF st, of q] True st
    show ?thesis by simp
  next
    case False
    with 3(2) show ?thesis by simp
  qed
qed

lemma dstep_holds:
  assumes "dstep body f r j d pc w = (pc', w')" "d_inserted pc'"
  shows "d_inserted pc \<or> insert_succeeds (designRequestId d) f (DesignRun j d r pc) w"
  using assms
  by (cases pc; cases f) (auto split: option.splits sum.splits if_splits)

lemma proc_step_holds:
  assumes "proc_step body f p w = (p', w')" "holds_version q p'"
  shows "holds_version q p \<or> insert_succeeds q f p w"
proof (cases p)
  case (DesignRun j d r pc)
  obtain pc' w2 where st: "dstep body f r j d pc w = (pc', w2)" by (cases "dstep body f r j d pc w")
  with assms DesignRun have p': "p' = DesignRun j d r pc'" by (auto simp: proc_step_def)
  with assms(2) have "designRequestId d = q" "d_inserted pc'" by simp_all
  with dstep_holds[OF st] DesignRun show ?thesis by auto
next
  case (DiagramRun j d pc)
  with assms show ?thesis by (auto simp: proc_step_def split: prod.splits)
qed

lemma filter_update_le:
  "i < length xs \<Longrightarrow>
   length (filter P (xs[i := y])) \<le> length (filter P xs) + (if P y \<and> \<not> P (xs ! i) then 1 else 0)"
proof (induction xs arbitrary: i)
  case Nil
  then show ?case by simp
next
  case (Cons a xs)
  show ?case
  proof (cases i)
    case 0
    then show ?thesis by auto
  next
    case (Suc n)
    with Cons.prems have "n < length xs" by simp
    from Cons.IH[OF this] Suc show ?thesis by (auto split: if_splits)
  qed
qed

lemma filter_mono_length: "(\<And>x. P x \<Longrightarrow> Q x) \<Longrightarrow> length (filter P xs) \<le> length (filter Q xs)"
  by (induction xs) auto

lemma fresh_run_holds: "fresh_run p \<Longrightarrow> \<not> holds_version q p"
  by (cases p) (auto simp: fresh_run_def)

lemma inserts_holders:
  "length (filter (holds_version q) (running (sys_exec body es s)))
   \<le> length (filter (holds_version q) (running s)) + successful_inserts body q es s"
proof (induction body es s rule: sys_exec.induct)
  case (1 body s)
  then show ?case by simp
next
  case (2 body p es s)
  then show ?case by (auto simp: fresh_run_holds)
next
  case (3 body i f es s)
  show ?case
  proof (cases "i < length (running s)")
    case True
    obtain p' w' where st: "proc_step body f (running s ! i) (store s) = (p', w')"
      by (cases "proc_step body f (running s ! i) (store s)")
    have "length (filter (holds_version q) ((running s)[i := p']))
          \<le> length (filter (holds_version q) (running s))
             + (if insert_succeeds q f (running s ! i) (store s) then 1 else 0)"
      using filter_update_le[OF True, of "holds_version q" p'] proc_step_holds[OF st, of q]
      by (auto split: if_splits)
    with 3(1)[OF True st[symmetric]] True st show ?thesis by simp
  next
    case False
    with 3(2) show ?thesis by simp
  qed
qed

lemma has_returned_holds: "has_returned q p \<Longrightarrow> holds_version q p"
  by (cases "(q, p)" rule: has_returned.cases) auto

lemma runs_le_inserts:
  assumes "running s = []"
  shows "successful_runs q (sys_exec body es s) \<le> successful_inserts body q es s"
proof -
  have "successful_runs q (sys_exec body es s)
        \<le> length (filter (holds_version q) (running (sys_exec body es s)))"
    unfolding successful_runs_def by (rule filter_mono_length) (rule has_returned_holds)
  also have "\<dots> \<le> length (filter (holds_version q) (running s)) + successful_inserts body q es s"
    by (rule inserts_holders)
  finally show ?thesis using assms by simp
qed

text \<open>
  Claim C1, as amended. Start with no DesignVersion rows and no execution in flight, and
  let any number of handler executions of both kinds run in any interleaving, with any
  failures of their awaited calls. Then, for every request, the versions of its
  DesignVersion rows in insertion order are exactly 1, 2, ..., N: no gap, no repetition,
  starting at 1. N is the number of calls of \<open>db.designVersion.create\<close> for the request
  that succeeded, along whatever schedule led to the state. It is at least the number of
  executions for the request that have returned, the successful generations and
  refinements, and it is not that number: the row of an execution that fails after its
  insert stays. Every step of the system leaves the table as it is or
  appends one row, and the version of that row is the greatest version its request has at
  that moment, or 0, plus one; an execution that read the same greatest version as another
  loses at the unique index and adds nothing.
\<close>

theorem design_versions_gapless:
  "running s0 = [] \<and> design_versions (store s0) = [] \<and> (sys_step body)\<^sup>*\<^sup>* s0 s \<longrightarrow>
     map dv_version (designVersions_of r (store s)) = [1..int (length (designVersions_of r (store s)))]
     \<and> distinct (map dv_version (designVersions_of r (store s)))
     \<and> (\<exists>es. s = sys_exec body es s0)
     \<and> (\<forall>es. s = sys_exec body es s0 \<longrightarrow>
          length (designVersions_of r (store s)) = successful_inserts body r es s0
          \<and> successful_runs r s \<le> successful_inserts body r es s0)
     \<and> (\<forall>s'. sys_step body s s' \<longrightarrow>
          design_versions (store s') = design_versions (store s)
          \<or> (\<exists>row. design_versions (store s') = design_versions (store s) @ [row]
                \<and> dv_version row
                    = next_version (map_option dv_version
                        (designVersion_findFirst (dv_request row) (store s)))))"
proof (intro impI)
  assume a: "running s0 = [] \<and> design_versions (store s0) = [] \<and> (sys_step body)\<^sup>*\<^sup>* s0 s"
  then have g0: "\<forall>q. gapless q (store s0)" by (simp add: gapless_def designVersions_of_def)
  from a have r0: "list_all (run_version_ok (store s0)) (running s0)" by simp
  from a sys_steps_gapless[OF _ g0 r0]
  have inv: "\<forall>q. gapless q (store s)" "list_all (run_version_ok (store s)) (running s)" by auto
  from inv(1) have m: "map dv_version (designVersions_of r (store s)) = [1..int (length (designVersions_of r (store s)))]"
    by (simp add: gapless_def)
  have d: "distinct (map dv_version (designVersions_of r (store s)))"
    by (subst m) simp
  from a have ex: "\<exists>es. s = sys_exec body es s0" by (simp add: sys_steps_exec)
  from a have e0: "designVersions_of r (store s0) = []" by (simp add: designVersions_of_def)
  have cnt: "\<forall>es. s = sys_exec body es s0 \<longrightarrow>
          length (designVersions_of r (store s)) = successful_inserts body r es s0
          \<and> successful_runs r s \<le> successful_inserts body r es s0"
  proof (intro allI impI)
    fix es assume s: "s = sys_exec body es s0"
    from a have "running s0 = []" by simp
    from runs_le_inserts[OF this, of r body es] inserts_length[of r body es s0] e0 s
    show "length (designVersions_of r (store s)) = successful_inserts body r es s0
          \<and> successful_runs r s \<le> successful_inserts body r es s0"
      by simp
  qed
  have st: "\<forall>s'. sys_step body s s' \<longrightarrow> allocates (store s) (store s')"
    using sys_step_alloc[OF _ inv] by blast
  from m d ex cnt st show "map dv_version (designVersions_of r (store s)) = [1..int (length (designVersions_of r (store s)))]
     \<and> distinct (map dv_version (designVersions_of r (store s)))
     \<and> (\<exists>es. s = sys_exec body es s0)
     \<and> (\<forall>es. s = sys_exec body es s0 \<longrightarrow>
          length (designVersions_of r (store s)) = successful_inserts body r es s0
          \<and> successful_runs r s \<le> successful_inserts body r es s0)
     \<and> (\<forall>s'. sys_step body s s' \<longrightarrow>
          design_versions (store s') = design_versions (store s)
          \<or> (\<exists>row. design_versions (store s') = design_versions (store s) @ [row]
                \<and> dv_version row
                    = next_version (map_option dv_version
                        (designVersion_findFirst (dv_request row) (store s)))))"
    by (simp add: allocates_def)
qed

theorem design_versions_gapless_witness:
  "running ex_system = [] \<and> design_versions (store ex_system) = []
   \<and> map dv_version
        (designVersions_of 1 (store (sys_exec ex_body (diagram_race_schedule @ retry_schedule) ex_system)))
       = [1, 2, 3]
   \<and> successful_inserts ex_body 1 (diagram_race_schedule @ retry_schedule) ex_system = 3
   \<and> successful_runs 1 (sys_exec ex_body (diagram_race_schedule @ retry_schedule) ex_system) = 2"
proof -
  let ?es = "diagram_race_schedule @ retry_schedule"
  let ?s = "sys_exec ex_body ?es ex_system"
  have h: "running ex_system = [] \<and> design_versions (store ex_system) = []
      \<and> (sys_step ex_body)\<^sup>*\<^sup>* ex_system ?s"
    by (simp add: ex_system_def ex_world_def sys_exec_steps)
  have "(let s = ?s in (length (designVersions_of 1 (store s)), successful_runs 1 s)) = (3, 2)"
    by (simp add: diagram_race_schedule_def retry_schedule_def ex_defs store_defs render_defs
          gen_defs successful_runs_def)
  then have n: "length (designVersions_of 1 (store ?s)) = 3" "successful_runs 1 ?s = 2"
    unfolding Let_def by simp_all
  have u: "[1..int 3] = [1, 2, 3]" by (simp add: upto_rec1)
  from design_versions_gapless[of ex_system ex_body ?s 1] h
  have m: "map dv_version (designVersions_of 1 (store ?s))
             = [1..int (length (designVersions_of 1 (store ?s)))]"
    and c: "\<forall>es. ?s = sys_exec ex_body es ex_system \<longrightarrow>
              length (designVersions_of 1 (store ?s)) = successful_inserts ex_body 1 es ex_system"
    by blast+
  from c have "length (designVersions_of 1 (store ?s)) = successful_inserts ex_body 1 ?es ex_system"
    by blast
  with m n u h show ?thesis by simp
qed

text \<open>
  The claim as it was stated, with N the number of successful generations, fails in the
  small installation with no call failing: jobs 10 and 11 run side by side, each inserts
  its DesignVersion, both read the same greatest diagram version, and job 10 loses at the
  unique index of the diagram versions. Request 1 then has the versions 1 and 2, while one
  execution has returned: job 11 is COMPLETED and job 10 is FAILED.
\<close>

theorem failed_run_keeps_its_version:
  "(let s = sys_exec ex_body diagram_race_schedule ex_system in
      (map dv_version (designVersions_of 1 (store s)), successful_runs 1 s,
       job_statuses (store s)))
   = ([1, 2], 1, [(10, FAILED), (11, COMPLETED), (12, PENDING)])"
  by (simp add: diagram_race_schedule_def ex_defs store_defs render_defs gen_defs
        successful_runs_def job_statuses_def)

subsection \<open>C2: a version conflict is not retried\<close>

lemma job_update_exists:
  "list_ex (\<lambda>x. job_id x = j) (jobs w) \<Longrightarrow>
   job_update j g w = Inr (w\<lparr>jobs := map (\<lambda>x. if job_id x = j then g x else x) (jobs w)\<rparr>)"
  by (simp add: job_update_def)

lemma jobs_updateJobStatus [simp]: "jobs (updateJobStatus j st p m w) = jobs w"
  by (simp add: updateJobStatus_def)

lemma clock_updateJobStatus [simp]: "clock (updateJobStatus j st p m w) = clock w"
  by (simp add: updateJobStatus_def)

lemma d_catch_path:
  assumes "list_ex (\<lambda>x. job_id x = j) (jobs w)"
  shows "drun body [None, None, None] r j d (D_Catch e, w) =
     (D_Thrown e,
      (updateJobStatus j FAILED 0 (errorMessage e) w)
        \<lparr>jobs := map (\<lambda>x. if job_id x = j
                             then x\<lparr>job_status := FAILED, job_error := Some (errorMessage e),
                                    job_completedAt := Some (clock w)\<rparr>
                             else x) (jobs w)\<rparr>)"
  using assms by (simp add: job_update_exists)

lemma r_catch_path:
  assumes "list_ex (\<lambda>x. job_id x = j) (jobs w)"
  shows "rrun [None, None, None] j d (R_Catch e, w) =
     (R_Thrown e,
      (updateJobStatus j FAILED 0 (errorMessage e) w)
        \<lparr>jobs := map (\<lambda>x. if job_id x = j
                             then x\<lparr>job_status := FAILED, job_error := Some (errorMessage e)\<rparr>
                             else x) (jobs w)\<rparr>)"
  using assms by (simp add: job_update_exists)

lemma list_ex_map_job:
  assumes "list_ex (\<lambda>x. job_id x = j) xs" "\<And>x. job_id (g x) = job_id x"
  shows "list_ex (\<lambda>x. job_id x = j) (map (\<lambda>x. if job_id x = j then g x else x) xs)"
  using assms by (induction xs) auto

lemma list_all_map_job:
  assumes "\<And>x. job_id (g x) = job_id x" "\<And>x. P (g x)"
  shows "list_all P (filter (\<lambda>x. job_id x = j) (map (\<lambda>x. if job_id x = j then g x else x) xs))"
  using assms by (induction xs) auto

lemma d_catch_outcome:
  assumes "list_ex (\<lambda>x. job_id x = j) (jobs w)"
  shows "case drun body [None, None, None] r j d (D_Catch e, w) of
           (pc', w') \<Rightarrow> pc' = D_Thrown e \<and> failed_and_unchanged j e w w'"
proof -
  have "list_ex (\<lambda>x. job_id x = j) (map (\<lambda>x. if job_id x = j
                             then x\<lparr>job_status := FAILED, job_error := Some (errorMessage e),
                                    job_completedAt := Some (clock w)\<rparr>
                             else x) (jobs w))"
    by (rule list_ex_map_job[OF assms]) simp
  moreover have "list_all (\<lambda>x. job_status x = FAILED \<and> job_error x = Some (errorMessage e))
      (filter (\<lambda>x. job_id x = j) (map (\<lambda>x. if job_id x = j
                             then x\<lparr>job_status := FAILED, job_error := Some (errorMessage e),
                                    job_completedAt := Some (clock w)\<rparr>
                             else x) (jobs w)))"
    by (rule list_all_map_job) simp_all
  ultimately show ?thesis
    unfolding d_catch_path[OF assms]
    by (simp add: failed_and_unchanged_def updateJobStatus_def)
qed

lemma r_catch_outcome:
  assumes "list_ex (\<lambda>x. job_id x = j) (jobs w)"
  shows "case rrun [None, None, None] j d (R_Catch e, w) of
           (pc', w') \<Rightarrow> pc' = R_Thrown e \<and> failed_and_unchanged j e w w'"
proof -
  have "list_ex (\<lambda>x. job_id x = j) (map (\<lambda>x. if job_id x = j
                             then x\<lparr>job_status := FAILED, job_error := Some (errorMessage e)\<rparr>
                             else x) (jobs w))"
    by (rule list_ex_map_job[OF assms]) simp
  moreover have "list_all (\<lambda>x. job_status x = FAILED \<and> job_error x = Some (errorMessage e))
      (filter (\<lambda>x. job_id x = j) (map (\<lambda>x. if job_id x = j
                             then x\<lparr>job_status := FAILED, job_error := Some (errorMessage e)\<rparr>
                             else x) (jobs w)))"
    by (rule list_all_map_job) simp_all
  ultimately show ?thesis
    unfolding r_catch_path[OF assms]
    by (simp add: failed_and_unchanged_def updateJobStatus_def)
qed

lemma drun_Cons_None: "drun body (f # fs) r j d (pc, w) = drun body fs r j d (dstep body f r j d pc w)"
  by simp

text \<open>
  Claim C2, as amended. When the insert of a new DesignVersion or DiagramVersion hits the
  unique index on (request, version), the handler does not read the greatest version
  again: the conflict goes straight to the handler's catch block, which marks the job
  FAILED (status hash: FAILED, 0 and the error's message; Job row: FAILED with the
  message), adds no row, and rethrows the same error to the queue. This holds at each of
  the three inserts (DesignVersion and DiagramVersion in the design handler,
  DiagramVersion in the diagram handler), for a job that has a row.
\<close>

theorem version_conflict_fails_the_job:
  "list_ex (\<lambda>x. job_id x = j) (jobs w) \<longrightarrow>
     (design_conflict (designRequestId d) v w \<longrightarrow>
        (case drun body [None, None, None, None] r j d (D_CreateDesign g v, w) of
           (pc', w') \<Rightarrow> pc' = D_Thrown unique_violation \<and> failed_and_unchanged j unique_violation w w'))
   \<and> (diagram_conflict (designRequestId d) v w \<longrightarrow>
        (case drun body [None, None, None, None] r j d (D_CreateDiagram dvid rr v, w) of
           (pc', w') \<Rightarrow> pc' = D_Thrown unique_violation \<and> failed_and_unchanged j unique_violation w w'))
   \<and> (diagram_conflict (renderRequestId rd) v w \<longrightarrow>
        (case rrun [None, None, None, None] j rd (R_Create rr v, w) of
           (pc', w') \<Rightarrow> pc' = R_Thrown unique_violation \<and> failed_and_unchanged j unique_violation w w'))"
proof (intro impI conjI)
  assume j: "list_ex (\<lambda>x. job_id x = j) (jobs w)"
  {
    assume "design_conflict (designRequestId d) v w"
    then have "dstep body None r j d (D_CreateDesign g v) w = (D_Catch unique_violation, w)"
      by (simp add: design_conflict_def designVersion_create_def)
    then show "case drun body [None, None, None, None] r j d (D_CreateDesign g v, w) of
           (pc', w') \<Rightarrow> pc' = D_Thrown unique_violation \<and> failed_and_unchanged j unique_violation w w'"
      using d_catch_outcome[OF j, where body = body and r = r and d = d and e = unique_violation] by (simp only: drun_Cons_None)
  }
  {
    assume "diagram_conflict (designRequestId d) v w"
    then have "dstep body None r j d (D_CreateDiagram dvid rr v) w = (D_Catch unique_violation, w)"
      by (simp add: diagram_conflict_def diagramVersion_create_def)
    then show "case drun body [None, None, None, None] r j d (D_CreateDiagram dvid rr v, w) of
           (pc', w') \<Rightarrow> pc' = D_Thrown unique_violation \<and> failed_and_unchanged j unique_violation w w'"
      using d_catch_outcome[OF j, where body = body and r = r and d = d and e = unique_violation] by (simp only: drun_Cons_None)
  }
  {
    assume "diagram_conflict (renderRequestId rd) v w"
    then have "rstep None j rd (R_Create rr v) w = (R_Catch unique_violation, w)"
      by (simp add: diagram_conflict_def diagramVersion_create_def)
    then show "case rrun [None, None, None, None] j rd (R_Create rr v, w) of
           (pc', w') \<Rightarrow> pc' = R_Thrown unique_violation \<and> failed_and_unchanged j unique_violation w w'"
      using r_catch_outcome[OF j, where d = rd and e = unique_violation] by simp
  }
qed

theorem version_conflict_fails_the_job_witness:
  "list_ex (\<lambda>x. job_id x = 10) (jobs ex_world_v1)
   \<and> design_conflict 1 1 ex_world_v1 \<and> diagram_conflict 1 1 ex_world_v1
   \<and> fst (drun ex_body [None, None, None, None] ex_response 10 ex_data
             (D_CreateDesign ex_generated 1, ex_world_v1)) = D_Thrown unique_violation
   \<and> fst (drun ex_body [None, None, None, None] ex_response 10 ex_data
             (D_CreateDiagram 100 (renderMermaidToSvg ''graph TD'') 1, ex_world_v1)) = D_Thrown unique_violation
   \<and> fst (rrun [None, None, None, None] 12 ex_render
             (R_Create (renderMermaidToSvg ''graph TD'') 1, ex_world_v1)) = R_Thrown unique_violation
   \<and> failed_and_unchanged 10 unique_violation ex_world_v1
        (snd (drun ex_body [None, None, None, None] ex_response 10 ex_data
             (D_CreateDesign ex_generated 1, ex_world_v1)))"
proof -
  have j: "list_ex (\<lambda>x. job_id x = 10) (jobs ex_world_v1)" "list_ex (\<lambda>x. job_id x = 12) (jobs ex_world_v1)"
    by (simp_all add: ex_defs)
  have h: "design_conflict (designRequestId ex_data) 1 ex_world_v1"
    "diagram_conflict (designRequestId ex_data) 1 ex_world_v1"
    "diagram_conflict (renderRequestId ex_render) 1 ex_world_v1"
    by (simp_all add: ex_defs design_conflict_def diagram_conflict_def)
  have r: "designRequestId ex_data = 1" "renderRequestId ex_render = 1" by (simp_all add: ex_defs)
  from version_conflict_fails_the_job[of 10 ex_world_v1 ex_data 1 ex_body ex_response ex_generated
      100 "renderMermaidToSvg ''graph TD''" ex_render] j(1) h
  have a: "case drun ex_body [None, None, None, None] ex_response 10 ex_data (D_CreateDesign ex_generated 1, ex_world_v1) of
           (pc', w') \<Rightarrow> pc' = D_Thrown unique_violation \<and> failed_and_unchanged 10 unique_violation ex_world_v1 w'"
    and b: "case drun ex_body [None, None, None, None] ex_response 10 ex_data (D_CreateDiagram 100 (renderMermaidToSvg ''graph TD'') 1, ex_world_v1) of
           (pc', w') \<Rightarrow> pc' = D_Thrown unique_violation \<and> failed_and_unchanged 10 unique_violation ex_world_v1 w'"
    by simp_all
  from version_conflict_fails_the_job[of 12 ex_world_v1 ex_data 1 ex_body ex_response ex_generated
      100 "renderMermaidToSvg ''graph TD''" ex_render] j(2) h
  have c: "case rrun [None, None, None, None] 12 ex_render (R_Create (renderMermaidToSvg ''graph TD'') 1, ex_world_v1) of
           (pc', w') \<Rightarrow> pc' = R_Thrown unique_violation \<and> failed_and_unchanged 12 unique_violation ex_world_v1 w'"
    by simp
  from a b c j h r show ?thesis by (auto split: prod.splits)
qed

theorem version_conflict_counterexample:
  "(let s = sys_exec ex_body race_schedule ex_system in
      (running s ! 0, running s ! 1,
       map job_status (jobs (store s)),
       map dv_version (design_versions (store s))))
   = (DesignRun 10 ex_data ex_response (D_Thrown unique_violation),
      DesignRun 11 ex_data ex_response (D_Returned 100),
      [FAILED, COMPLETED, PENDING],
      [1])"
  by (simp add: race_schedule_def ex_defs store_defs render_defs gen_defs)

subsection \<open>An execution without failures\<close>

lemma next_version_Some: "next_version (Some n) = n + 1"
  by (simp add: next_version_def)

lemma next_design_version_fresh:
  "\<not> list_ex (\<lambda>v. dv_request v = r
        \<and> dv_version v = next_version (map_option dv_version (designVersion_findFirst r w)))
      (design_versions w)"
proof (cases "designVersion_findFirst r w")
  case None
  then have "designVersions_of r w = []"
    by (simp add: designVersion_findFirst_def max_row_None)
  then show ?thesis
    by (auto simp: designVersions_of_def list_ex_iff filter_empty_conv)
next
  case (Some y)
  from max_row_Some[OF Some[unfolded designVersion_findFirst_def]]
  have "\<forall>x\<in>set (designVersions_of r w). dv_version x \<le> dv_version y" by simp
  then have "\<forall>x\<in>set (design_versions w). dv_request x = r \<longrightarrow> dv_version x < dv_version y + 1"
    by (auto simp: designVersions_of_def)
  with Some show ?thesis
    by (auto simp: list_ex_iff next_version_Some)
qed

lemma next_diagram_version_fresh:
  "\<not> list_ex (\<lambda>v. gv_request v = r
        \<and> gv_version v = next_version (map_option gv_version (diagramVersion_findFirst r w)))
      (diagram_versions w)"
proof (cases "diagramVersion_findFirst r w")
  case None
  then have "diagramVersions_of r w = []"
    by (simp add: diagramVersion_findFirst_def max_row_None)
  then show ?thesis
    by (auto simp: diagramVersions_of_def list_ex_iff filter_empty_conv)
next
  case (Some y)
  from max_row_Some[OF Some[unfolded diagramVersion_findFirst_def]]
  have "\<forall>x\<in>set (diagramVersions_of r w). gv_version x \<le> gv_version y" by simp
  then have "\<forall>x\<in>set (diagram_versions w). gv_request x = r \<longrightarrow> gv_version x < gv_version y + 1"
    by (auto simp: diagramVersions_of_def)
  with Some show ?thesis
    by (auto simp: list_ex_iff next_version_Some)
qed

lemma list_ex_map_job_eq:
  assumes "\<And>x. job_id (g x) = job_id x"
  shows "list_ex (\<lambda>x. job_id x = j) (map (\<lambda>x. if job_id x = j then g x else x) xs)
         = list_ex (\<lambda>x. job_id x = j) xs"
  using assms by (induction xs) auto

lemmas run_simps = designWorker_def diagramWorker_def ex_no_faults_def updateJobStatus_def
  job_update_def designVersion_create_def diagramVersion_create_def Let_def request_exists_def
  list_ex_map_job_eq
  next_design_version_fresh[unfolded designVersion_findFirst_def designVersions_of_def]
  next_diagram_version_fresh[unfolded diagramVersion_findFirst_def diagramVersions_of_def]
  designVersion_findFirst_def designVersions_of_def
  diagramVersion_findFirst_def diagramVersions_of_def

text \<open>
  An execution of the design handler in which no awaited call fails, for a job that has a
  row and a request that exists, returns: the job is COMPLETED with progress 100 in both
  stores, and one DesignVersion and one DiagramVersion are added, the diagram with the
  generated source, a reference to the new design version and no artifact, whatever the
  renderer's validation says about the source.
\<close>

lemma design_run_completes:
  assumes j: "list_ex (\<lambda>x. job_id x = j) (jobs w)"
    and q: "request_exists (designRequestId d) w"
    and g: "generateDesign body r (worker_input d) = Inr g"
  shows "case designWorker body ex_no_faults r j d w of
           (pc', w') \<Rightarrow>
             pc' = D_Returned (next_id w)
           \<and> map_option (\<lambda>s. (st_status s, st_progress s)) (cache w' j) = Some (COMPLETED, 100)
           \<and> list_all (\<lambda>x. job_status x = COMPLETED \<and> job_progress x = 100)
                (filter (\<lambda>x. job_id x = j) (jobs w'))
           \<and> design_versions w' = design_versions w
                @ [\<lparr>dv_id = next_id w,
                    dv_version = next_version (map_option dv_version
                                   (designVersion_findFirst (designRequestId d) w)),
                    dv_request = designRequestId d, dv_data = design g\<rparr>]
           \<and> diagram_versions w' = diagram_versions w
                @ [\<lparr>gv_id = Suc (next_id w),
                    gv_version = next_version (map_option gv_version
                                   (diagramVersion_findFirst (designRequestId d) w)),
                    gv_request = designRequestId d, gv_designVersion = Some (next_id w),
                    gv_source = mermaidDiagram g, gv_svg = None\<rparr>]"
proof -
  obtain pc' w' where res: "designWorker body ex_no_faults r j d w = (pc', w')"
    by (cases "designWorker body ex_no_faults r j d w")
  have 1: "fst (designWorker body ex_no_faults r j d w) = D_Returned (next_id w)"
    using j q by (simp add: run_simps g)
  have 2: "map_option (\<lambda>s. (st_status s, st_progress s))
             (cache (snd (designWorker body ex_no_faults r j d w)) j) = Some (COMPLETED, 100)"
    using j q by (simp add: run_simps g)
  have 3: "list_all (\<lambda>x. job_status x = COMPLETED \<and> job_progress x = 100)
             (filter (\<lambda>x. job_id x = j) (jobs (snd (designWorker body ex_no_faults r j d w))))"
    using j q by (simp add: run_simps g list_all_map_job del: map_map)
  have 4: "design_versions (snd (designWorker body ex_no_faults r j d w)) = design_versions w
                @ [\<lparr>dv_id = next_id w,
                    dv_version = next_version (map_option dv_version
                                   (designVersion_findFirst (designRequestId d) w)),
                    dv_request = designRequestId d, dv_data = design g\<rparr>]"
    using j q by (simp add: run_simps g)
  have 5: "diagram_versions (snd (designWorker body ex_no_faults r j d w)) = diagram_versions w
                @ [\<lparr>gv_id = Suc (next_id w),
                    gv_version = next_version (map_option gv_version
                                   (diagramVersion_findFirst (designRequestId d) w)),
                    gv_request = designRequestId d, gv_designVersion = Some (next_id w),
                    gv_source = mermaidDiagram g, gv_svg = None\<rparr>]"
    using j q by (simp add: run_simps g renderMermaidToSvg_def)
  from 1 2 3 4 5 res show ?thesis by simp
qed

subsection \<open>C3: a failed job in both stores\<close>

lemma map_progress_update:
  assumes "\<And>x. job_progress (g x) = job_progress x"
  shows "map job_progress (map (\<lambda>x. if job_id x = j then g x else x) xs) = map job_progress xs"
  using assms by (induction xs) auto

text \<open>
  What the catch block of the design handler leaves behind: FAILED, 0 and the message in
  the status hash; FAILED, the message and the completion time in the Job row, whose
  progress stays what it was.
\<close>

lemma catch_block_keeps_row_progress:
  assumes "list_ex (\<lambda>x. job_id x = j) (jobs w)"
  shows "case drun body [None, None, None] r j d (D_Catch e, w) of
           (pc', w') \<Rightarrow>
             pc' = D_Thrown e
           \<and> map job_progress (jobs w') = map job_progress (jobs w)
           \<and> map_option st_progress (cache w' j) = Some 0"
  unfolding d_catch_path[OF assms]
  by (simp add: updateJobStatus_def map_progress_update del: map_map)

text \<open>
  Claim C3 says that the catch block marks the job FAILED with progress reset to 0 and the
  error message in the status hash and in the Job row, and rethrows. Evaluated on job 10
  when \<open>db.designVersion.create\<close> fails with a lost connection: the handler rethrows that
  error, the status hash holds FAILED, 0 and the message, and the Job row holds FAILED and
  the message, but its progress is still the 10 written at line 70: the
  \<open>db.job.update\<close> of the catch block sets no progress.
\<close>

theorem failed_job_row_keeps_progress:
  "(case designWorker ex_body ex_faults ex_response 10 ex_data ex_world of
      (pc', w') \<Rightarrow>
        (pc',
         map_option (\<lambda>s. (st_status s, st_progress s, st_message s)) (cache w' 10),
         map (\<lambda>x. (job_status x, job_progress x, job_error x))
           (filter (\<lambda>x. job_id x = 10) (jobs w'))))
   = (D_Thrown (Error ''Connection lost''),
      Some (FAILED, 0, ''Connection lost''),
      [(FAILED, 10, Some ''Connection lost'')])"
  by (simp add: designWorker_def ex_defs store_defs render_defs gen_defs)

subsection \<open>C4: the two branches of getStatus\<close>

text \<open>
  Claim C4 says that for a job in a terminal state \<open>getStatus\<close> answers with the same
  status and progress from the status hash and, once the hash is evicted, from the Job
  row. Evaluated on job 10 after the failed execution above, for the owner of the
  request: the cache branch answers FAILED with progress 0, the fallback branch FAILED
  with progress 10.
\<close>

theorem get_status_branches_differ:
  "(case designWorker ex_body ex_faults ex_response 10 ex_data ex_world of
      (pc', w') \<Rightarrow>
        (map_sum id (\<lambda>v. (sv_status v, sv_progress v))
           (getStatus None \<lparr>userId = Some 7\<rparr> 10 w'),
         map_sum id (\<lambda>v. (sv_status v, sv_progress v))
           (getStatus None \<lparr>userId = Some 7\<rparr> 10 (evict 10 w'))))
   = (Inr (FAILED, 0), Inr (FAILED, 10))"
  by (simp add: designWorker_def ex_defs store_defs render_defs gen_defs getStatus_def
      getJobStatus_def evict_def or_undefined_def)

subsection \<open>C5: what enqueueing does\<close>

lemma enqueue_success:
  assumes "on_create env = None" "on_add env = None" "on_hset env = None" "on_expire env = None"
    "request_exists (designRequestId data) w"
  shows "enqueueDesignGeneration env data w =
     (Inr (next_id w),
      expire (next_id w) 86400
        (updateJobStatus (next_id w) PENDING 0 ''Job queued''
          (w\<lparr>jobs := jobs w @ [pending_job (next_id w) data], next_id := Suc (next_id w),
             designQueue := designQueue w @ [(next_id w, data)]\<rparr>)))"
  using assms
  by (simp add: enqueueDesignGeneration_def job_create_def setJobStatus_def Let_def pending_job_def)

lemma enqueue_create_fails:
  assumes "on_create env \<noteq> None \<or> \<not> request_exists (designRequestId data) w"
  shows "\<exists>e. enqueueDesignGeneration env data w = (Inl e, w)"
  using assms
  by (auto simp: enqueueDesignGeneration_def job_create_def split: option.splits)

lemma enqueue_refs:
  assumes "queue_refs_jobs w" "enqueueDesignGeneration env data w = (res, w')"
  shows "queue_refs_jobs w'"
  using assms
  by (fastforce simp: enqueueDesignGeneration_def job_create_def setJobStatus_def Let_def
      queue_refs_jobs_def updateJobStatus_def expire_def list_all_iff list_ex_iff
      split: option.splits if_splits sum.splits prod.splits)

text \<open>
  Claim C5. When none of its four awaited calls fails, \<open>enqueueDesignGeneration(data)\<close>
  adds exactly one Job row (PENDING, progress 0, metadata the payload), then exactly one
  queue entry carrying the new job id and the payload, then seeds the status hash of that
  id with PENDING, 0 and the message "Job queued" (with a day's expiry), and returns the
  id. When the Job-row create fails, the call fails with the stores untouched, so before
  any queue push; and in every outcome each queue entry names a job that has a row if that
  held before the call.
\<close>

theorem enqueue_design_generation_effects:
  "(on_create env = None \<and> on_add env = None \<and> on_hset env = None \<and> on_expire env = None
      \<and> request_exists (designRequestId data) w \<longrightarrow>
     (let i = next_id w; (res, w') = enqueueDesignGeneration env data w in
        res = Inr i
      \<and> jobs w' = jobs w @ [pending_job i data]
      \<and> designQueue w' = designQueue w @ [(i, data)]
      \<and> cache w' i = Some \<lparr>st_status = PENDING, st_progress = 0, st_message = ''Job queued'',
                             st_updatedAt = clock w, st_ttl = Some 86400\<rparr>
      \<and> cache_log w' = cache_log w @ [(i, PENDING, 0)]))
   \<and> (on_create env \<noteq> None \<or> \<not> request_exists (designRequestId data) w \<longrightarrow>
        (\<exists>e. enqueueDesignGeneration env data w = (Inl e, w)))
   \<and> (queue_refs_jobs w \<longrightarrow> queue_refs_jobs (snd (enqueueDesignGeneration env data w)))"
proof (intro conjI impI)
  assume a: "on_create env = None \<and> on_add env = None \<and> on_hset env = None \<and> on_expire env = None
      \<and> request_exists (designRequestId data) w"
  then show "let i = next_id w; (res, w') = enqueueDesignGeneration env data w in
        res = Inr i
      \<and> jobs w' = jobs w @ [pending_job i data]
      \<and> designQueue w' = designQueue w @ [(i, data)]
      \<and> cache w' i = Some \<lparr>st_status = PENDING, st_progress = 0, st_message = ''Job queued'',
                             st_updatedAt = clock w, st_ttl = Some 86400\<rparr>
      \<and> cache_log w' = cache_log w @ [(i, PENDING, 0)]"
    by (simp add: enqueue_success Let_def updateJobStatus_def expire_def)
next
  assume "on_create env \<noteq> None \<or> \<not> request_exists (designRequestId data) w"
  then show "\<exists>e. enqueueDesignGeneration env data w = (Inl e, w)" by (rule enqueue_create_fails)
next
  assume "queue_refs_jobs w"
  then show "queue_refs_jobs (snd (enqueueDesignGeneration env data w))"
    using enqueue_refs[of w env data] by (cases "enqueueDesignGeneration env data w") simp
qed

theorem enqueue_design_generation_effects_witness:
  "request_exists (designRequestId ex_data) ex_world
   \<and> fst (enqueueDesignGeneration no_fault ex_data ex_world) = Inr 100
   \<and> jobs (snd (enqueueDesignGeneration no_fault ex_data ex_world))
       = jobs ex_world @ [pending_job 100 ex_data]
   \<and> designQueue (snd (enqueueDesignGeneration no_fault ex_data ex_world)) = [(100, ex_data)]
   \<and> map_option st_status (cache (snd (enqueueDesignGeneration no_fault ex_data ex_world)) 100)
       = Some PENDING
   \<and> enqueueDesignGeneration (no_fault\<lparr>on_create := Some (Error ''Connection lost'')\<rparr>) ex_data ex_world
       = (Inl (Error ''Connection lost''), ex_world)
   \<and> queue_refs_jobs ex_world
   \<and> queue_refs_jobs (snd (enqueueDesignGeneration no_fault ex_data ex_world))"
proof -
  have r: "request_exists (designRequestId ex_data) ex_world"
    by (simp add: request_exists_def ex_defs)
  have n: "next_id ex_world = 100" "designQueue ex_world = []" by (simp_all add: ex_defs)
  have q: "queue_refs_jobs ex_world" by (simp add: queue_refs_jobs_def ex_defs)
  have f: "on_create no_fault = None \<and> on_add no_fault = None \<and> on_hset no_fault = None
      \<and> on_expire no_fault = None" by (simp add: no_fault_def)
  have c: "on_create (no_fault\<lparr>on_create := Some (Error ''Connection lost'')\<rparr>) \<noteq> None" by simp
  obtain e where e: "enqueueDesignGeneration (no_fault\<lparr>on_create := Some (Error ''Connection lost'')\<rparr>) ex_data ex_world = (Inl e, ex_world)"
    using enqueue_design_generation_effects[of "no_fault\<lparr>on_create := Some (Error ''Connection lost'')\<rparr>" ex_data ex_world] c by blast
  then have "e = Error ''Connection lost''"
    by (simp add: enqueueDesignGeneration_def)
  with e show ?thesis
    using enqueue_design_generation_effects[of no_fault ex_data ex_world] r n q f
    by (auto simp: Let_def split: prod.splits)
qed

subsection \<open>C6: what generateDesign returns\<close>

text \<open>
  \<open>generateDesign\<close> always returns: with the provider's design when the \<open>try\<close> block
  gets through, with the fallback design otherwise. The fallback design has all five
  arrays, with three components.
\<close>

lemma generateDesign_total:
  "(\<exists>g. generateDesign body r input = Inr g)
   \<and> (\<forall>e. generateDesign_try r = Inl e \<longrightarrow>
         generateDesign body r input = Inr (generateMockDesign body input))
   \<and> generateDesign body (Throws e') input = Inr (generateMockDesign body input)"
  by (auto simp: generateDesign_def generateDesign_try_def split: sum.splits)

lemma generateMockDesign_arrays:
  "\<exists>c1 c2 c3 ds as ss cs.
      property (design (generateMockDesign body input)) ''components'' = Some (JArr [c1, c2, c3])
    \<and> property (design (generateMockDesign body input)) ''dataStores'' = Some (JArr ds)
    \<and> property (design (generateMockDesign body input)) ''apis'' = Some (JArr as)
    \<and> property (design (generateMockDesign body input)) ''security'' = Some (JArr ss)
    \<and> property (design (generateMockDesign body input)) ''scaleChanges'' = Some (JArr cs)"
  by (simp add: generateMockDesign_def Let_def property_def mock_components_def
      mock_dataStores_def mock_apis_def mock_security_def mock_scaleChanges_def)

text \<open>
  The provider's design, when it is returned, has \<open>components\<close>, \<open>dataStores\<close> and
  \<open>apis\<close> that are neither undefined nor null; nothing is known of their type or of the
  other two arrays.
\<close>

lemma generateDesign_provider_design:
  assumes "generateDesign_try r = Inr g"
  shows "generateDesign body r input = Inr g
       \<and> length_readable (property (design g) ''components'')
       \<and> length_readable (property (design g) ''dataStores'')
       \<and> length_readable (property (design g) ''apis'')"
  using assms
  by (auto simp: generateDesign_def generateDesign_try_def Let_def
      split: response.splits option.splits if_splits)

text \<open>A job whose provider throws completes, with the fallback design stored.\<close>

lemma provider_throws_job_completes:
  assumes "list_ex (\<lambda>x. job_id x = j) (jobs w)" "request_exists (designRequestId d) w"
  shows "case designWorker body ex_no_faults (Throws e) j d w of
           (pc', w') \<Rightarrow>
             pc' = D_Returned (next_id w)
           \<and> map_option (\<lambda>s. (st_status s, st_progress s)) (cache w' j) = Some (COMPLETED, 100)
           \<and> list_all (\<lambda>x. job_status x = COMPLETED \<and> job_progress x = 100)
                (filter (\<lambda>x. job_id x = j) (jobs w'))
           \<and> map dv_data (drop (length (design_versions w)) (design_versions w'))
                = [design (generateMockDesign body (worker_input d))]"
proof -
  have g: "generateDesign body (Throws e) (worker_input d)
             = Inr (generateMockDesign body (worker_input d))"
    by (simp add: generateDesign_total)
  from design_run_completes[OF assms g] show ?thesis
    by (auto split: prod.splits)
qed

text \<open>
  Claim C6 says, among other things, that the design \<open>generateDesign\<close> returns always
  has the structural arrays present. Evaluated on a provider answer whose design holds
  \<open>components\<close>, \<open>dataStores\<close> and \<open>apis\<close> only: the answer is returned as it is, for
  every input, and its \<open>security\<close> and \<open>scaleChanges\<close> are undefined.
\<close>

theorem provider_design_returned_unchecked:
  "generateDesign body ex_response input
     = Inr \<lparr>design = ex_partial_design, mermaidDiagram = ''graph TD''\<rparr>
   \<and> property ex_partial_design ''security'' = None
   \<and> property ex_partial_design ''scaleChanges'' = None"
  by (simp add: ex_defs gen_defs startsWith_def)

subsection \<open>C7: refinement needs a prior version\<close>

lemma find_cond: "List.find P xs = Some x \<Longrightarrow> P x"
  by (auto simp: find_Some_iff)

text \<open>
  Claim C7. A refinement for a request without any DesignVersion fails synchronously and
  leaves every store as it was: no Job row is created and nothing is enqueued, so the
  check precedes the enqueue call. For a caller who passes the guards that come first
  (logged in, within the rate limit, a prompt of 1 to 2000 characters, the request is the
  caller's own and its project is no template) the error is BAD_REQUEST "No existing
  design version to refine".
\<close>

theorem refine_without_version_rejected:
  "designVersions_of (ri_designRequestId input) w = [] \<longrightarrow>
     (\<exists>e. refineDesign env allowed ctx input w = (Inl e, w))
     \<and> (\<forall>uid request project.
          userId ctx = Some uid \<and> allowed
          \<and> 1 \<le> length (ri_refinementPrompt input) \<and> length (ri_refinementPrompt input) \<le> 2000
          \<and> List.find (\<lambda>q. rq_id q = ri_designRequestId input \<and> rq_userId q = uid) (design_requests w) = Some request
          \<and> List.find (\<lambda>p. project_id p = rq_project request) (projects w) = Some project
          \<and> \<not> isTemplate project
          \<longrightarrow> refineDesign env allowed ctx input w
                = (Inl (TRPCError BAD_REQUEST ''No existing design version to refine''), w))"
proof (intro impI conjI allI)
  assume e: "designVersions_of (ri_designRequestId input) w = []"
  have nf: "\<And>request uid. List.find (\<lambda>q. rq_id q = ri_designRequestId input \<and> rq_userId q = uid) (design_requests w) = Some request
      \<Longrightarrow> designVersion_findFirst (rq_id request) w = None"
    using e by (auto dest!: find_cond simp: designVersion_findFirst_def)
  show "\<exists>e. refineDesign env allowed ctx input w = (Inl e, w)"
    by (auto simp: refineDesign_def nf split: option.splits)
  fix uid request project
  assume "userId ctx = Some uid \<and> allowed
          \<and> 1 \<le> length (ri_refinementPrompt input) \<and> length (ri_refinementPrompt input) \<le> 2000
          \<and> List.find (\<lambda>q. rq_id q = ri_designRequestId input \<and> rq_userId q = uid) (design_requests w) = Some request
          \<and> List.find (\<lambda>p. project_id p = rq_project request) (projects w) = Some project
          \<and> \<not> isTemplate project"
  then show "refineDesign env allowed ctx input w
                = (Inl (TRPCError BAD_REQUEST ''No existing design version to refine''), w)"
    using nf[of uid request] by (auto simp: refineDesign_def)
qed

theorem refine_without_version_rejected_witness:
  "designVersions_of (ri_designRequestId ex_refine) ex_world = []
   \<and> refineDesign no_fault True \<lparr>userId = Some 7\<rparr> ex_refine ex_world
       = (Inl (TRPCError BAD_REQUEST ''No existing design version to refine''), ex_world)
   \<and> jobs (snd (refineDesign no_fault True \<lparr>userId = Some 7\<rparr> ex_refine ex_world)) = jobs ex_world
   \<and> designQueue (snd (refineDesign no_fault True \<lparr>userId = Some 7\<rparr> ex_refine ex_world)) = []"
proof -
  have e: "designVersions_of (ri_designRequestId ex_refine) ex_world = []"
    by (simp add: designVersions_of_def ex_defs)
  have h: "userId \<lparr>userId = Some 7\<rparr> = Some 7 \<and> True
          \<and> 1 \<le> length (ri_refinementPrompt ex_refine) \<and> length (ri_refinementPrompt ex_refine) \<le> 2000
          \<and> List.find (\<lambda>q. rq_id q = ri_designRequestId ex_refine \<and> rq_userId q = 7) (design_requests ex_world) = Some ex_request
          \<and> List.find (\<lambda>p. project_id p = rq_project ex_request) (projects ex_world) = Some \<lparr>project_id = 2, isTemplate = False\<rparr>
          \<and> \<not> isTemplate \<lparr>project_id = 2, isTemplate = False\<rparr>"
    by (simp add: ex_defs ex_refine_def)
  from refine_without_version_rejected[of ex_refine ex_world no_fault True "\<lparr>userId = Some 7\<rparr>"] e h
  have "refineDesign no_fault True \<lparr>userId = Some 7\<rparr> ex_refine ex_world
       = (Inl (TRPCError BAD_REQUEST ''No existing design version to refine''), ex_world)"
    by blast
  with e show ?thesis by (simp add: ex_defs)
qed

subsection \<open>C8: the status writes of one execution\<close>

lemma cache_log_updateJobStatus [simp]:
  "cache_log (updateJobStatus j st p m w) = cache_log w @ [(j, st, p)]"
  by (simp add: updateJobStatus_def)

lemma job_update_log: "job_update j g w = Inr w' \<Longrightarrow> cache_log w' = cache_log w"
  by (auto simp: job_update_def split: if_splits)

lemma designVersion_create_log:
  "designVersion_create r n x w = Inr (row, w') \<Longrightarrow> cache_log w' = cache_log w"
  by (auto simp: designVersion_create_def Let_def split: if_splits)

lemma diagramVersion_create_log:
  "diagramVersion_create r dv n s g w = Inr (row, w') \<Longrightarrow> cache_log w' = cache_log w"
  by (auto simp: diagramVersion_create_def Let_def split: if_splits)

lemma dstep_rank:
  assumes "dstep body f r j d pc w = (pc', w')"
  shows "d_rank pc' < d_rank pc \<or> (d_rank pc = 0 \<and> pc' = pc)"
  using assms
  by (cases pc) (auto split: option.splits sum.splits prod.splits)

lemma rstep_rank:
  assumes "rstep f j d pc w = (pc', w')"
  shows "r_rank pc' < r_rank pc \<or> (r_rank pc = 0 \<and> pc' = pc)"
  using assms
  by (cases pc) (auto split: option.splits sum.splits prod.splits)

lemma d_full_take:
  "[(j, PROCESSING, 10)] = take (Suc 0) (d_full j)"
  "take (Suc 0) (d_full j) @ [(j, PROCESSING, 30)] = take 2 (d_full j)"
  "take 2 (d_full j) @ [(j, PROCESSING, 50)] = take 3 (d_full j)"
  "take 3 (d_full j) @ [(j, PROCESSING, 70)] = take 4 (d_full j)"
  "take 4 (d_full j) @ [(j, PROCESSING, 85)] = take 5 (d_full j)"
  "take 5 (d_full j) @ [(j, COMPLETED, 100)] = take 6 (d_full j)"
  by (simp_all add: d_full_def)

lemma r_full_take:
  "[(j, PROCESSING, 50)] = take (Suc 0) (r_full j)"
  "take (Suc 0) (r_full j) @ [(j, COMPLETED, 100)] = take 2 (r_full j)"
  by (simp_all add: r_full_def)

lemma take_prefix_ex: "k \<le> m \<Longrightarrow> \<exists>n\<le>m. take k xs = take n xs"
  by blast

lemma dstep_trace:
  assumes "dstep body f r j d pc w = (pc', w')" "cache_log w = l0 @ t" "d_trace_ok j pc t"
  shows "\<exists>t'. cache_log w' = l0 @ t' \<and> d_trace_ok j pc' t'"
  using assms
  by (cases pc)
     (auto simp: d_trace_ok_def d_full_take take_prefix_ex
      dest: job_update_log designVersion_create_log diagramVersion_create_log
      split: option.splits sum.splits)

lemma rstep_trace:
  assumes "rstep f j d pc w = (pc', w')" "cache_log w = l0 @ t" "r_trace_ok j pc t"
  shows "\<exists>t'. cache_log w' = l0 @ t' \<and> r_trace_ok j pc' t'"
  using assms
  by (cases pc)
     (auto simp: r_trace_ok_def r_full_take take_prefix_ex
      dest: job_update_log diagramVersion_create_log
      split: option.splits sum.splits)

lemma drun_trace:
  assumes "cache_log (snd c) = l0 @ t" "d_trace_ok j (fst c) t"
  shows "\<exists>t'. cache_log (snd (drun body fs r j d c)) = l0 @ t'
              \<and> d_trace_ok j (fst (drun body fs r j d c)) t'"
  using assms
proof (induction fs arbitrary: c t)
  case Nil
  then show ?case by auto
next
  case (Cons f fs)
  obtain pc' w' where st: "dstep body f r j d (fst c) (snd c) = (pc', w')"
    by (cases "dstep body f r j d (fst c) (snd c)")
  from dstep_trace[OF st Cons.prems] obtain t' where
    "cache_log w' = l0 @ t'" "d_trace_ok j pc' t'" by blast
  then have "\<exists>t''. cache_log (snd (drun body fs r j d (pc', w'))) = l0 @ t''
              \<and> d_trace_ok j (fst (drun body fs r j d (pc', w'))) t''"
    using Cons.IH[of "(pc', w')" t'] by simp
  with st show ?case by simp
qed

lemma rrun_trace:
  assumes "cache_log (snd c) = l0 @ t" "r_trace_ok j (fst c) t"
  shows "\<exists>t'. cache_log (snd (rrun fs j d c)) = l0 @ t'
              \<and> r_trace_ok j (fst (rrun fs j d c)) t'"
  using assms
proof (induction fs arbitrary: c t)
  case Nil
  then show ?case by auto
next
  case (Cons f fs)
  obtain pc' w' where st: "rstep f j d (fst c) (snd c) = (pc', w')"
    by (cases "rstep f j d (fst c) (snd c)")
  from rstep_trace[OF st Cons.prems] obtain t' where
    "cache_log w' = l0 @ t'" "r_trace_ok j pc' t'" by blast
  then have "\<exists>t''. cache_log (snd (rrun fs j d (pc', w'))) = l0 @ t''
              \<and> r_trace_ok j (fst (rrun fs j d (pc', w'))) t''"
    using Cons.IH[of "(pc', w')" t'] by simp
  with st show ?case by simp
qed

lemma drun_rank: "d_rank (fst (drun body fs r j d c)) \<le> d_rank (fst c) - length fs"
proof (induction fs arbitrary: c)
  case Nil
  then show ?case by simp
next
  case (Cons f fs)
  obtain pc' w' where st: "dstep body f r j d (fst c) (snd c) = (pc', w')"
    by (cases "dstep body f r j d (fst c) (snd c)")
  from dstep_rank[OF st] have "d_rank pc' \<le> d_rank (fst c) - 1" by auto
  moreover from Cons.IH[of "(pc', w')"]
  have "d_rank (fst (drun body fs r j d (pc', w'))) \<le> d_rank pc' - length fs" by simp
  ultimately show ?case using st by simp
qed

lemma rrun_rank: "r_rank (fst (rrun fs j d c)) \<le> r_rank (fst c) - length fs"
proof (induction fs arbitrary: c)
  case Nil
  then show ?case by simp
next
  case (Cons f fs)
  obtain pc' w' where st: "rstep f j d (fst c) (snd c) = (pc', w')"
    by (cases "rstep f j d (fst c) (snd c)")
  from rstep_rank[OF st] have "r_rank pc' \<le> r_rank (fst c) - 1" by auto
  moreover from Cons.IH[of "(pc', w')"]
  have "r_rank (fst (rrun fs j d (pc', w'))) \<le> r_rank pc' - length fs" by simp
  ultimately show ?case using st by simp
qed

lemma d_rank_final: "d_rank pc = 0 \<Longrightarrow> d_final pc"
  by (cases pc) (simp_all add: d_final_def)

lemma r_rank_final: "r_rank pc = 0 \<Longrightarrow> r_final pc"
  by (cases pc) (simp_all add: r_final_def)

lemma d_trace_shape:
  assumes "d_trace_ok j pc t"
  shows "\<exists>n tl. n \<le> 6 \<and> t = take n (d_full j) @ tl \<and> (tl = [] \<or> tl = [(j, FAILED, 0)])
          \<and> (\<forall>dv. pc = D_Returned dv \<longrightarrow> n = 6 \<and> tl = [])
          \<and> (\<forall>e. pc = D_Thrown e \<longrightarrow> tl = [(j, FAILED, 0)])"
proof -
  from assms obtain n tl where n: "n \<le> 6" "d_written pc = None \<or> d_written pc = Some n"
    "tl \<in> set (d_tails j pc)" "t = take n (d_full j) @ tl"
    unfolding d_trace_ok_def by blast
  from n(3) have a: "tl = [] \<or> tl = [(j, FAILED, 0)]" by (cases pc) auto
  from n(2,3) have b: "\<forall>dv. pc = D_Returned dv \<longrightarrow> n = 6 \<and> tl = []" by auto
  from n(3) have c: "\<forall>e. pc = D_Thrown e \<longrightarrow> tl = [(j, FAILED, 0)]" by auto
  from n(1,4) a b c show ?thesis by blast
qed

lemma r_trace_shape:
  assumes "r_trace_ok j pc t"
  shows "\<exists>n tl. n \<le> 2 \<and> t = take n (r_full j) @ tl \<and> (tl = [] \<or> tl = [(j, FAILED, 0)])
          \<and> (pc = R_Returned \<longrightarrow> n = 2 \<and> tl = [])
          \<and> (\<forall>e. pc = R_Thrown e \<longrightarrow> tl = [(j, FAILED, 0)])"
proof -
  from assms obtain n tl where n: "n \<le> 2" "r_written pc = None \<or> r_written pc = Some n"
    "tl \<in> set (r_tails j pc)" "t = take n (r_full j) @ tl"
    unfolding r_trace_ok_def by blast
  from n(3) have a: "tl = [] \<or> tl = [(j, FAILED, 0)]" by (cases pc) auto
  from n(2,3) have b: "pc = R_Returned \<longrightarrow> n = 2 \<and> tl = []" by auto
  from n(3) have c: "\<forall>e. pc = R_Thrown e \<longrightarrow> tl = [(j, FAILED, 0)]" by auto
  from n(1,4) a b c show ?thesis by blast
qed

text \<open>
  The status writes of one execution of either handler, whatever calls fail: an initial
  part of the PROCESSING writes 10, 30, 50, 70, 85 (design generation) or 50 (diagram
  re-rendering), then COMPLETED with 100 after all of them, then at most one write of
  FAILED with 0, the last one. An execution that returns has written the whole sequence up
  to COMPLETED 100 and nothing after it, one that rethrows has FAILED 0 as its last write,
  and eighteen (eleven) steps end every execution. The statement leaves open that FAILED 0
  follows COMPLETED 100.
\<close>

lemma status_writes_shape:
  "(case designWorker body fs r j d w of
      (pc', w') \<Rightarrow>
        (18 \<le> length fs \<longrightarrow> d_final pc')
        \<and> (\<exists>n tl. n \<le> 6 \<and> cache_log w' = cache_log w @ take n (d_full j) @ tl
              \<and> (tl = [] \<or> tl = [(j, FAILED, 0)])
              \<and> (\<forall>dv. pc' = D_Returned dv \<longrightarrow> n = 6 \<and> tl = [])
              \<and> (\<forall>e. pc' = D_Thrown e \<longrightarrow> tl = [(j, FAILED, 0)])))
   \<and> (case diagramWorker fs' j' d' w of
      (pc', w') \<Rightarrow>
        (11 \<le> length fs' \<longrightarrow> r_final pc')
        \<and> (\<exists>n tl. n \<le> 2 \<and> cache_log w' = cache_log w @ take n (r_full j') @ tl
              \<and> (tl = [] \<or> tl = [(j', FAILED, 0)])
              \<and> (pc' = R_Returned \<longrightarrow> n = 2 \<and> tl = [])
              \<and> (\<forall>e. pc' = R_Thrown e \<longrightarrow> tl = [(j', FAILED, 0)])))"
proof (intro conjI)
  obtain pc' w' where res: "designWorker body fs r j d w = (pc', w')"
    by (cases "designWorker body fs r j d w")
  have "d_trace_ok j D_Start []" by (simp add: d_trace_ok_def)
  from drun_trace[of "(D_Start, w)" "cache_log w" "[]" j body fs r d] this res
  obtain t where t: "cache_log w' = cache_log w @ t" "d_trace_ok j pc' t"
    by (auto simp: designWorker_def)
  from drun_rank[of body fs r j d "(D_Start, w)"] res
  have fin: "18 \<le> length fs \<longrightarrow> d_final pc'"
    by (auto simp: designWorker_def intro: d_rank_final)
  from d_trace_shape[OF t(2)] t(1) fin res
  show "case designWorker body fs r j d w of
      (pc', w') \<Rightarrow>
        (18 \<le> length fs \<longrightarrow> d_final pc')
        \<and> (\<exists>n tl. n \<le> 6 \<and> cache_log w' = cache_log w @ take n (d_full j) @ tl
              \<and> (tl = [] \<or> tl = [(j, FAILED, 0)])
              \<and> (\<forall>dv. pc' = D_Returned dv \<longrightarrow> n = 6 \<and> tl = [])
              \<and> (\<forall>e. pc' = D_Thrown e \<longrightarrow> tl = [(j, FAILED, 0)]))"
    by auto
next
  obtain pc' w' where res: "diagramWorker fs' j' d' w = (pc', w')"
    by (cases "diagramWorker fs' j' d' w")
  have "r_trace_ok j' R_Start []" by (simp add: r_trace_ok_def)
  from rrun_trace[of "(R_Start, w)" "cache_log w" "[]" j' fs' d'] this res
  obtain t where t: "cache_log w' = cache_log w @ t" "r_trace_ok j' pc' t"
    by (auto simp: diagramWorker_def)
  from rrun_rank[of fs' j' d' "(R_Start, w)"] res
  have fin: "11 \<le> length fs' \<longrightarrow> r_final pc'"
    by (auto simp: diagramWorker_def intro: r_rank_final)
  from r_trace_shape[OF t(2)] t(1) fin res
  show "case diagramWorker fs' j' d' w of
      (pc', w') \<Rightarrow>
        (11 \<le> length fs' \<longrightarrow> r_final pc')
        \<and> (\<exists>n tl. n \<le> 2 \<and> cache_log w' = cache_log w @ take n (r_full j') @ tl
              \<and> (tl = [] \<or> tl = [(j', FAILED, 0)])
              \<and> (pc' = R_Returned \<longrightarrow> n = 2 \<and> tl = [])
              \<and> (\<forall>e. pc' = R_Thrown e \<longrightarrow> tl = [(j', FAILED, 0)]))"
    by auto
qed

text \<open>
  Claim C8 says that within one execution the status goes from PROCESSING to one terminal
  state and that the progress values end at 100 on COMPLETED or at 0 on FAILED. The
  writes of COMPLETED 100 (lines 139 and 213) stand inside the \<open>try\<close> block, before
  \<open>db.job.update\<close> and \<open>redis.quit\<close>: when one of these two calls fails, the catch block
  writes FAILED 0 after COMPLETED 100. Here the \<open>db.job.update\<close> that records COMPLETED
  fails once. The design execution of job 10 writes PROCESSING 10, 30, 50, 70, 85, then
  COMPLETED 100, then FAILED 0, and rethrows; the job ends FAILED in both stores although
  its DesignVersion and its DiagramVersion are stored. The diagram execution of job 12
  writes PROCESSING 50, COMPLETED 100, FAILED 0.
\<close>

theorem completed_then_failed:
  "(case designWorker ex_body ex_design_update_fails ex_response 10 ex_data ex_world of
      (pc', w') \<Rightarrow>
        (pc', map snd (cache_log w'),
         map_option (\<lambda>s. (st_status s, st_progress s)) (cache w' 10),
         map job_status (filter (\<lambda>x. job_id x = 10) (jobs w')),
         map dv_version (design_versions w'), map gv_version (diagram_versions w')))
   = (D_Thrown (Error ''Connection lost''),
      [(PROCESSING, 10), (PROCESSING, 30), (PROCESSING, 50), (PROCESSING, 70), (PROCESSING, 85),
       (COMPLETED, 100), (FAILED, 0)],
      Some (FAILED, 0), [FAILED], [1], [1])
   \<and> (case diagramWorker ex_diagram_update_fails 12 ex_render ex_world of
      (pc', w') \<Rightarrow>
        (pc', map snd (cache_log w'),
         map_option (\<lambda>s. (st_status s, st_progress s)) (cache w' 12),
         map job_status (filter (\<lambda>x. job_id x = 12) (jobs w')),
         map gv_version (diagram_versions w')))
   = (R_Thrown (Error ''Connection lost''),
      [(PROCESSING, 50), (COMPLETED, 100), (FAILED, 0)],
      Some (FAILED, 0), [FAILED], [1])"
  by (simp add: designWorker_def diagramWorker_def ex_defs store_defs render_defs gen_defs
        ex_design_update_fails_def ex_diagram_update_fails_def)

subsection \<open>C9: the renderer's validation\<close>

text \<open>
  The renderer never throws: a source that is empty after trimming, or whose first line
  holds no type name, gives the source back with no artifact and an error.
\<close>

lemma render_rejected_source:
  "(trim source = [] \<longrightarrow>
      renderMermaidToSvg source
        = \<lparr>mermaidSource = source, svgContent = None, error = Some ''Empty diagram source''\<rparr>)
   \<and> (trim source \<noteq> [] \<and> \<not> hasValidType source \<longrightarrow>
      renderMermaidToSvg source
        = \<lparr>mermaidSource = source, svgContent = None,
           error = Some ''Invalid diagram type. Must start with a valid Mermaid diagram declaration.''\<rparr>)
   \<and> mermaidSource (renderMermaidToSvg source) = source"
  by (simp add: renderMermaidToSvg_def)

text \<open>
  Claim C9 says that \<open>renderMermaidToSvg\<close> validates that the source begins with a
  recognized diagram-type declaration. Evaluated on the source "not a graph": it begins
  with none of the recognized types, in any letter case, and the result carries no error,
  because the check looks for a type name anywhere in the first line.
\<close>

theorem renderer_accepts_type_name_anywhere:
  "list_ex (\<lambda>type. startsWith (toLowerCase (trim ''not a graph'')) (toLowerCase type)) validTypes
     = False
   \<and> renderMermaidToSvg ''not a graph''
       = \<lparr>mermaidSource = ''not a graph'', svgContent = None, error = None\<rparr>"
  by (simp add: render_defs)

subsection \<open>C10: the renderer never produces an artifact\<close>

text \<open>
  Claim C10. For every input string \<open>renderMermaidToSvg\<close> returns a result whose
  \<open>svgContent\<close> is null, also for a source that passes the validation; so every
  DiagramVersion row that a handler of either kind adds, in any interleaving of any number
  of executions started from a state with no execution in flight, has a null artifact.
\<close>

theorem renderer_svg_always_null:
  "svgContent (renderMermaidToSvg source) = None
   \<and> (running s0 = [] \<longrightarrow> (sys_step body)\<^sup>*\<^sup>* s0 s \<longrightarrow>
        (\<exists>new. diagram_versions (store s) = diagram_versions (store s0) @ new
               \<and> list_all (\<lambda>v. gv_svg v = None) new))"
  using sys_steps_svg[of body s0 s] by (auto simp: render_svg_null adds_null_svg_def)

theorem renderer_svg_always_null_witness:
  "svgContent (renderMermaidToSvg ''graph TD'') = None
   \<and> running ex_system = []
   \<and> (\<exists>new. diagram_versions (store (sys_exec ex_body
                 [Deliver (DiagramRun 12 ex_render R_Start), Advance 0 None, Advance 0 None,
                  Advance 0 None, Advance 0 None, Advance 0 None] ex_system))
             = diagram_versions (store ex_system) @ new
            \<and> list_all (\<lambda>v. gv_svg v = None) new \<and> length new = 1)"
proof -
  let ?s = "sys_exec ex_body
                 [Deliver (DiagramRun 12 ex_render R_Start), Advance 0 None, Advance 0 None,
                  Advance 0 None, Advance 0 None, Advance 0 None] ex_system"
  have r: "running ex_system = []" by (simp add: ex_system_def)
  have st: "(sys_step ex_body)\<^sup>*\<^sup>* ex_system ?s" by (rule sys_exec_steps)
  from renderer_svg_always_null[of "''graph TD''" ex_system ex_body ?s] r st
  obtain new where n: "diagram_versions (store ?s) = diagram_versions (store ex_system) @ new"
      "list_all (\<lambda>v. gv_svg v = None) new" by blast
  have "length (diagram_versions (store ?s)) = 1"
    by (simp add: ex_defs store_defs renderMermaidToSvg_def hasValidType_def validTypes_def
      trim_def is_ws_def first_line_def toLowerCase_def lower_char_def startsWith_def)
  moreover have "diagram_versions (store ex_system) = []" by (simp add: ex_defs)
  ultimately have "length new = 1" using n(1) by simp
  with n r renderer_svg_always_null[of "''graph TD''" ex_system ex_body ?s] show ?thesis by blast
qed

end
